theory Spec2Isabelle
  imports Main "HOL-Library.Char_ord" "HOL-Library.List_Lexorder"
begin

section \<open>Calendar days and date strings\<close>

text \<open>
  The \<^verbatim>\<open>Date\<close> objects the server code builds from its clock are local
  midnights (\<^verbatim>\<open>setHours(0, 0, 0, 0)\<close>); they are only moved by whole days
  (\<^verbatim>\<open>setDate(getDate() - 1)\<close>), compared, or read through \<^verbatim>\<open>getFullYear\<close>,
  \<^verbatim>\<open>getMonth\<close> and \<^verbatim>\<open>getDate\<close>. Such a value is modelled by the number of calendar
  days between 1970-01-01 and the day it denotes (proleptic Gregorian calendar,
  as ECMAScript has it). A \<^verbatim>\<open>Date\<close> built from a string a client sent is modelled
  by its time value, in milliseconds; see \<open>post_entry\<close> and \<open>getLongestStreak\<close>.
  A string is a list of code units below 256; \<open>length\<close> is \<^verbatim>\<open>.length\<close>.
\<close>

type_synonym day = int

text \<open>
  Year, month (1 to 12) and day of the month of a day number, and the day number
  of a year, month and day; \<^verbatim>\<open>getMonth\<close> counts months from 0.
\<close>

definition civil :: "day \<Rightarrow> int \<times> int \<times> int" where
  "civil z0 =
     (let z = z0 + 719468;
          era = z div 146097;
          doe = z - era * 146097;
          yoe = (doe - doe div 1460 + doe div 36524 - doe div 146096) div 365;
          doy = doe - (365 * yoe + yoe div 4 - yoe div 100);
          mp = (5 * doy + 2) div 153;
          d = doy - (153 * mp + 2) div 5 + 1;
          m = (if mp < 10 then mp + 3 else mp - 9);
          y = yoe + era * 400 + (if m \<le> 2 then 1 else 0)
      in (y, m, d))"

definition getFullYear :: "day \<Rightarrow> int" where
  "getFullYear d = fst (civil d)"

definition getMonth :: "day \<Rightarrow> int" where
  "getMonth d = fst (snd (civil d)) - 1"

definition getDate :: "day \<Rightarrow> int" where
  "getDate d = snd (snd (civil d))"

definition days_from_civil :: "int \<Rightarrow> int \<Rightarrow> int \<Rightarrow> day" where
  "days_from_civil y0 m d =
     (let y = (if m \<le> 2 then y0 - 1 else y0);
          era = y div 400;
          yoe = y - era * 400;
          doy = (153 * (if m > 2 then m - 3 else m + 9) + 2) div 5 + d - 1;
          doe = yoe * 365 + yoe div 4 - yoe div 100 + doy
      in era * 146097 + doe - 719468)"

definition digit_char :: "int \<Rightarrow> char" where
  "digit_char n = ''0123456789'' ! nat n"

text \<open>The decimal digits of an integer that is not negative.\<close>

function decimal :: "int \<Rightarrow> string" where
  "decimal n =
     (if n < 10 then [digit_char n]
      else decimal (n div 10) @ [digit_char (n mod 10)])"
  by pat_completeness auto
termination
  by (relation "measure nat") auto

declare decimal.simps [simp del]

text \<open>\<^verbatim>\<open>String(n)\<close> and the template literal's conversion of an integer.\<close>

definition String :: "int \<Rightarrow> string" where
  "String n = (if n < 0 then CHR ''-'' # decimal (- n) else decimal n)"

definition padStart :: "nat \<Rightarrow> char \<Rightarrow> string \<Rightarrow> string" where
  "padStart n c s = replicate (n - length s) c @ s"

definition formatDate :: "day \<Rightarrow> string" where
  "formatDate date =
     (let year = getFullYear date;
          month = padStart 2 CHR ''0'' (String (getMonth date + 1));
          day = padStart 2 CHR ''0'' (String (getDate date))
      in String year @ ''-'' @ month @ ''-'' @ day)"

definition digit_val :: "char \<Rightarrow> int option" where
  "digit_val c =
     (let n = (of_char c :: nat) in if 48 \<le> n \<and> n \<le> 57 then Some (int n - 48) else None)"

fun digits_val :: "string \<Rightarrow> int \<Rightarrow> int option" where
  "digits_val [] acc = Some acc"
| "digits_val (c # cs) acc =
     (case digit_val c of None \<Rightarrow> None | Some v \<Rightarrow> digits_val cs (10 * acc + v))"

text \<open>The number written by the first \<open>n\<close> characters, all digits, and the rest.\<close>

definition fixed_number :: "nat \<Rightarrow> string \<Rightarrow> (int \<times> string) option" where
  "fixed_number n s =
     (if length s < n then None
      else (case digits_val (take n s) 0 of
              None \<Rightarrow> None
            | Some v \<Rightarrow> Some (v, drop n s)))"

text \<open>
  The year of the date-time string format: four digits, or a sign and six digits
  (\<^verbatim>\<open>-000000\<close> is not a year).
\<close>

definition year_part :: "string \<Rightarrow> (int \<times> string) option" where
  "year_part s =
     (case s of
        [] \<Rightarrow> None
      | c # cs \<Rightarrow>
          if c = CHR ''+'' then fixed_number 6 cs
          else if c = CHR ''-'' then
            (case fixed_number 6 cs of
               None \<Rightarrow> None
             | Some (y, rest) \<Rightarrow> if y = 0 then None else Some (- y, rest))
          else fixed_number 4 s)"

text \<open>
  A time value is kept only within 100 000 000 days of 1970-01-01
  (\<^verbatim>\<open>TimeClip\<close>); the local midnight of the last day on either side is in or out
  of that range depending on the zone, and is taken as in.
\<close>

definition local_midnight :: "int \<Rightarrow> int \<Rightarrow> int \<Rightarrow> day option" where
  "local_midnight y m d =
     (let n = days_from_civil y m d
      in if - 100000000 \<le> n \<and> n \<le> 100000000 then Some n else None)"

text \<open>
  \<open>newDate s\<close> is \<^verbatim>\<open>new Date(s + 'T00:00:00')\<close> for a string \<open>s\<close> that is a date of
  the date-time string format, as Node's engine reads it: \<^verbatim>\<open>YYYY\<close>, \<^verbatim>\<open>YYYY-MM\<close>
  or \<^verbatim>\<open>YYYY-MM-DD\<close>, the year also written with a sign and six digits, the month
  01 to 12 and the day 01 to 31, a missing month or day being 1 and a day past the
  end of its month running on into the next one. The result is the local
  midnight of that calendar date. \<open>None\<close> is an Invalid Date (whose time value is
  NaN); every string that is not of the format is one in the model. What the
  engine's fallback parser makes of a string outside the format is not
  modelled, and \<open>newDate\<close> is used only where the server wrote the string itself
  (\<open>getMissedDays\<close>) and in the examples.
\<close>

definition newDate :: "string \<Rightarrow> day option" where
  "newDate s =
     (case year_part s of
        None \<Rightarrow> None
      | Some (y, r1) \<Rightarrow>
          (case r1 of
             [] \<Rightarrow> local_midnight y 1 1
           | c1 # s1 \<Rightarrow>
               if c1 \<noteq> CHR ''-'' then None
               else (case fixed_number 2 s1 of
                  None \<Rightarrow> None
                | Some (m, r2) \<Rightarrow>
                    if \<not> (1 \<le> m \<and> m \<le> 12) then None
                    else (case r2 of
                       [] \<Rightarrow> local_midnight y m 1
                     | c2 # s2 \<Rightarrow>
                         if c2 \<noteq> CHR ''-'' then None
                         else (case fixed_number 2 s2 of
                            None \<Rightarrow> None
                          | Some (d, r3) \<Rightarrow>
                              if r3 = [] \<and> 1 \<le> d \<and> d \<le> 31
                              then local_midnight y m d else None)))))"

text \<open>
  Where the server reads a date a client sent, the engine's parser is a
  parameter \<open>parse\<close> of the model: \<open>parse s\<close> is the time value, in milliseconds
  since the epoch, of \<^verbatim>\<open>new Date(s + 'T00:00:00')\<close>, or \<open>None\<close> for an Invalid Date.
  The theorems on \<open>post_entry\<close> and \<open>getLongestStreak\<close> hold for every \<open>parse\<close>.
\<close>

type_synonym time_value = int

section \<open>The entries table\<close>

text \<open>
  One row of the table \<^verbatim>\<open>entries\<close>. The columns \<^verbatim>\<open>text\<close> and \<^verbatim>\<open>rating\<close> are
  nullable, \<^verbatim>\<open>skipped\<close> is an integer holding 0 or 1. The surrogate key \<^verbatim>\<open>id\<close> is
  left out: no operation reads it. The table is the list of its rows, so that a
  second row for one \<^verbatim>\<open>(user_id, date)\<close> is expressible and its absence is a
  property to prove.
\<close>

record entry =
  user_id :: nat
  date :: string
  entry_text :: "string option"
  rating :: "int option"
  skipped :: int
  created_at :: string
  updated_at :: string

type_synonym db = "entry list"

text \<open>
  \<^verbatim>\<open>INSERT ... ON CONFLICT(user_id, date) DO UPDATE SET text, rating, skipped,
  updated_at\<close>: a row with the key is updated in place and keeps its
  \<^verbatim>\<open>created_at\<close>; otherwise a new row is added. \<open>now\<close> is
  \<^verbatim>\<open>new Date().toISOString()\<close>.
\<close>

definition createOrUpdateEntry ::
    "string \<Rightarrow> nat \<Rightarrow> string \<Rightarrow> string option \<Rightarrow> bool \<Rightarrow> int option \<Rightarrow> db \<Rightarrow> db" where
  "createOrUpdateEntry now userId d t skipped_flag r tbl =
     (if \<exists>e \<in> set tbl. user_id e = userId \<and> date e = d then
        map (\<lambda>e. if user_id e = userId \<and> date e = d
                 then e\<lparr>entry_text := t, rating := r,
                        skipped := (if skipped_flag then 1 else 0), updated_at := now\<rparr>
                 else e) tbl
      else
        tbl @ [\<lparr>user_id = userId, date = d, entry_text = t, rating = r,
                 skipped = (if skipped_flag then 1 else 0),
                 created_at = now, updated_at = now\<rparr>])"

definition getEntry :: "nat \<Rightarrow> string \<Rightarrow> db \<Rightarrow> entry option" where
  "getEntry userId d tbl = find (\<lambda>e. user_id e = userId \<and> date e = d) tbl"

text \<open>\<^verbatim>\<open>WHERE user_id = ? AND skipped = 0 AND text IS NOT NULL\<close>\<close>

definition qualifying :: "nat \<Rightarrow> db \<Rightarrow> entry list" where
  "qualifying userId tbl =
     filter (\<lambda>e. user_id e = userId \<and> skipped e = 0 \<and> entry_text e \<noteq> None) tbl"

section \<open>Current streak\<close>

text \<open>
  The loop of \<^verbatim>\<open>getStreak\<close>, with its variables \<open>i\<close>, \<open>streak\<close> and \<open>checkDate\<close>
  as arguments.
\<close>

function streak_loop :: "entry list \<Rightarrow> nat \<Rightarrow> nat \<Rightarrow> day \<Rightarrow> nat" where
  "streak_loop entries i streak checkDate =
     (if i < 365 then
        (case find (\<lambda>e. date e = formatDate checkDate) entries of
           Some entry \<Rightarrow> streak_loop entries (i + 1) (streak + 1) (checkDate - 1)
         | None \<Rightarrow> streak)
      else streak)"
  by pat_completeness auto
termination
  by (relation "measure (\<lambda>(entries, i, streak, checkDate). 365 - i)") auto

declare streak_loop.simps [simp del]

text \<open>\<open>today\<close> is \<^verbatim>\<open>new Date()\<close> after \<^verbatim>\<open>setHours(0, 0, 0, 0)\<close>.\<close>

definition getStreak :: "day \<Rightarrow> nat \<Rightarrow> db \<Rightarrow> nat" where
  "getStreak today userId tbl =
     (let entries = rev (sort_key date (qualifying userId tbl))
      in if length entries = 0 then 0 else streak_loop entries 0 0 today)"

section \<open>Random entry\<close>


section \<open>Missed days\<close>

function missed_loop :: "nat \<Rightarrow> db \<Rightarrow> day \<Rightarrow> day \<Rightarrow> string list \<Rightarrow> string list" where
  "missed_loop userId tbl signup checkDate missedDays =
     (if checkDate \<ge> signup then
        (let dateStr = formatDate checkDate;
             entry = getEntry userId dateStr tbl
         in missed_loop userId tbl signup (checkDate - 1)
              (if entry = None then missedDays @ [dateStr] else missedDays))
      else missedDays)"
  by pat_completeness auto
termination
  by (relation "measure (\<lambda>(userId, tbl, signup, checkDate, missedDays).
        nat (checkDate - signup + 1))") auto

declare missed_loop.simps [simp del]

text \<open>
  An Invalid Date \<open>signup\<close> makes \<^verbatim>\<open>checkDate >= signup\<close> false at once, and the
  result is the empty list.
\<close>

definition getMissedDays :: "day \<Rightarrow> nat \<Rightarrow> string \<Rightarrow> db \<Rightarrow> string list" where
  "getMissedDays today userId signupDate tbl =
     (case newDate signupDate of
        None \<Rightarrow> rev []
      | Some signup \<Rightarrow> rev (missed_loop userId tbl signup (today - 1) []))"

section \<open>Longest streak\<close>

text \<open>
  \<^verbatim>\<open>Math.round((currDate - prevDate) / (1000 * 60 * 60 * 24))\<close>: the difference of
  two time values in days, rounded to the nearest integer, a half upward; it is
  NaN (\<open>None\<close>) when either is an Invalid Date. Rounding \<open>n / 86400000\<close> so is
  \<open>(2 * n + 86400000) div 172800000\<close>; the model divides exactly, not in floating
  point.
\<close>

definition diffDays :: "time_value option \<Rightarrow> time_value option \<Rightarrow> int option" where
  "diffDays currDate prevDate =
     (case (currDate, prevDate) of
        (Some c, Some p) \<Rightarrow> Some ((2 * (c - p) + 86400000) div 172800000)
      | _ \<Rightarrow> None)"

function longest_loop ::
    "(string \<Rightarrow> time_value option) \<Rightarrow> entry list \<Rightarrow> nat \<Rightarrow> nat \<Rightarrow> nat \<Rightarrow> nat" where
  "longest_loop parse entries i longestStreak currentStreak =
     (if i < length entries then
        (let prevDate = parse (date (entries ! (i - 1)));
             currDate = parse (date (entries ! i))
         in if diffDays currDate prevDate = Some 1
            then longest_loop parse entries (i + 1)
                   (max longestStreak (currentStreak + 1)) (currentStreak + 1)
            else longest_loop parse entries (i + 1) longestStreak 1)
      else longestStreak)"
  by pat_completeness auto
termination
  by (relation "measure (\<lambda>(parse, entries, i, longestStreak, currentStreak).
        length entries - i)") auto

declare longest_loop.simps [simp del]

definition getLongestStreak :: "(string \<Rightarrow> time_value option) \<Rightarrow> nat \<Rightarrow> db \<Rightarrow> nat" where
  "getLongestStreak parse userId tbl =
     (let entries = sort_key date (qualifying userId tbl)
      in if length entries = 0 then 0 else longest_loop parse entries 1 1 1)"

section \<open>The routes\<close>

text \<open>
  The responses that are not a success: status 400 with its message, status 404
  with its message, and the status 500 of the handlers' \<^verbatim>\<open>catch\<close>.
\<close>

datatype error = ValidationError string | NotFoundError string | ServerError string

text \<open>
  A value of the JSON body. A number is an integer here: the handler tests a
  number only for being 0 and for being 1, 2 or 3, and a number with a fraction
  is none of these.
\<close>

datatype json =
  JNull | JBool bool | JNum int | JStr string | JArr "json list" | JObj "(string \<times> json) list"

text \<open>What \<^verbatim>\<open>!v\<close>, \<^verbatim>\<open>v ? a : b\<close> and \<^verbatim>\<open>v || w\<close> test.\<close>

definition truthy :: "json \<Rightarrow> bool" where
  "truthy v =
     (case v of
        JNull \<Rightarrow> False
      | JBool b \<Rightarrow> b
      | JNum n \<Rightarrow> n \<noteq> 0
      | JStr s \<Rightarrow> s \<noteq> []
      | JArr xs \<Rightarrow> True
      | JObj kvs \<Rightarrow> True)"

text \<open>
  The JSON body of \<^verbatim>\<open>POST /api/entries\<close>. A field that is absent is \<open>JNull\<close>: the
  handler treats \<^verbatim>\<open>undefined\<close> and \<^verbatim>\<open>null\<close> alike. The date is a string or
  absent (\<open>None\<close>): what becomes of a date of another type is decided by the
  database driver that binds it, which is not part of the repository.
\<close>

record body =
  body_date :: "string option"
  body_text :: json
  body_rating :: json
  body_skipped :: json

record saved =
  message :: string
  saved_date :: string
  saved_rating :: "int option"
  saved_skipped :: bool

definition MIN_CHARS :: nat where
  "MIN_CHARS = 100"

text \<open>
  \<^verbatim>\<open>String.prototype.trim\<close>: the white space and line terminators among the
  code units below 256 are TAB, LF, VT, FF, CR, SP and NBSP.
\<close>

definition is_space :: "char \<Rightarrow> bool" where
  "is_space c =
     (c \<in> set [CHR 0x09, CHR 0x0A, CHR 0x0B, CHR 0x0C, CHR 0x0D, CHR 0x20, CHR 0xA0])"

definition trim :: "string \<Rightarrow> string" where
  "trim s = rev (dropWhile is_space (rev (dropWhile is_space s)))"

text \<open>\<^verbatim>\<open>v || null\<close>\<close>

definition or_null :: "json \<Rightarrow> json" where
  "or_null v = (if truthy v then v else JNull)"

text \<open>
  The rating as the column and the response hold it: past the handler's check
  it is \<^verbatim>\<open>null\<close> or one of the numbers 1, 2, 3.
\<close>

definition rating_column :: "json \<Rightarrow> int option" where
  "rating_column v = (case v of JNum n \<Rightarrow> Some n | _ \<Rightarrow> None)"

text \<open>
  The handler of \<^verbatim>\<open>POST /\<close>, for the authenticated user \<open>userId\<close>; \<open>today\<close> is the
  time value of \<^verbatim>\<open>new Date()\<close> after \<^verbatim>\<open>setHours(0, 0, 0, 0)\<close>. The table is returned
  with the response. The checks are the handler's, in its order. In
  \<^verbatim>\<open>!skipped && (!text || !text.trim())\<close> a text that is truthy and not a string
  has no \<^verbatim>\<open>trim\<close>: the call throws a TypeError, which the handler's \<^verbatim>\<open>catch\<close>
  answers with status 500; past that check a text that is not skipped is a
  string, and the branches for other values are never taken. A failure of the
  database itself is not modelled.
\<close>

definition post_entry ::
    "(string \<Rightarrow> time_value option) \<Rightarrow> time_value \<Rightarrow> string \<Rightarrow> nat \<Rightarrow> body \<Rightarrow> db \<Rightarrow>
       (error + saved) \<times> db" where
  "post_entry parse today now userId b tbl =
     (case body_date b of
        None \<Rightarrow> (Inl (ValidationError ''Date is required''), tbl)
      | Some d \<Rightarrow>
        if d = [] then (Inl (ValidationError ''Date is required''), tbl)
        else if \<not> truthy (body_skipped b) \<and> \<not> truthy (body_text b)
        then (Inl (ValidationError ''Entry text is required''), tbl)
        else if \<not> truthy (body_skipped b) \<and>
                (case body_text b of JStr t \<Rightarrow> False | _ \<Rightarrow> True)
        then (Inl (ServerError ''Server error''), tbl)
        else if \<not> truthy (body_skipped b) \<and>
                (case body_text b of JStr t \<Rightarrow> trim t = [] | _ \<Rightarrow> False)
        then (Inl (ValidationError ''Entry text is required''), tbl)
        else if \<not> truthy (body_skipped b) \<and>
                (case body_text b of JStr t \<Rightarrow> length (trim t) < MIN_CHARS | _ \<Rightarrow> False)
        then (Inl (ValidationError ''Entry must be at least 100 characters''), tbl)
        else if body_rating b \<noteq> JNull \<and> body_rating b \<notin> set [JNum 1, JNum 2, JNum 3]
        then (Inl (ValidationError ''Invalid rating value''), tbl)
        else if (case parse d of None \<Rightarrow> False | Some entryDate \<Rightarrow> entryDate > today)
        then (Inl (ValidationError ''Cannot create entry for future date''), tbl)
        else
          (Inr \<lparr>message = (if truthy (body_skipped b) then ''Day skipped'' else ''Entry saved''),
                saved_date = d,
                saved_rating =
                  (if truthy (body_skipped b) then None
                   else rating_column (or_null (body_rating b))),
                saved_skipped = truthy (body_skipped b)\<rparr>,
           createOrUpdateEntry now userId d
             (if truthy (body_skipped b) then None
              else (case body_text b of JStr t \<Rightarrow> Some (trim t) | _ \<Rightarrow> None))
             (truthy (body_skipped b))
             (if truthy (body_skipped b) then None
              else rating_column (or_null (body_rating b)))
             tbl))"

record random_smile =
  smile_date :: string
  smile_text :: "string option"
  smile_rating :: "int option"


section \<open>What the specification speaks of\<close>

text \<open>
  The user has a qualifying entry (not skipped, text present) for calendar day
  \<open>d\<close>: a row whose \<^verbatim>\<open>date\<close> is that day as \<open>formatDate\<close> writes it.
\<close>

definition has_qualifying :: "nat \<Rightarrow> db \<Rightarrow> day \<Rightarrow> bool" where
  "has_qualifying userId tbl d =
     (\<exists>e \<in> set tbl. user_id e = userId \<and> skipped e = 0 \<and> entry_text e \<noteq> None \<and>
        date e = formatDate d)"


text \<open>
  The date of \<open>nxt\<close> is one calendar day after the date of \<open>prev\<close>: as the engine
  reads the two dates, the second is a day later than the first, to within half
  a day (the midnights of two consecutive days are 23, 24 or 25 hours apart).
\<close>

definition one_day_apart :: "(string \<Rightarrow> time_value option) \<Rightarrow> entry \<Rightarrow> entry \<Rightarrow> bool" where
  "one_day_apart parse prev nxt =
     (case (parse (date prev), parse (date nxt)) of
        (Some p, Some c) \<Rightarrow> 43200000 \<le> c - p \<and> c - p < 129600000
      | _ \<Rightarrow> False)"

text \<open>
  The \<open>n\<close> entries of \<open>es\<close> from position \<open>s\<close> on form a run: each is one calendar
  day after the one before it.
\<close>

definition is_run :: "(string \<Rightarrow> time_value option) \<Rightarrow> entry list \<Rightarrow> nat \<Rightarrow> nat \<Rightarrow> bool" where
  "is_run parse es s n =
     (0 < n \<and> s + n \<le> length es \<and>
      (\<forall>k \<in> {s..<s + n - 1}. one_day_apart parse (es ! k) (es ! (k + 1))))"

text \<open>The constraint \<^verbatim>\<open>UNIQUE(user_id, date)\<close> of the table.\<close>

definition unique_key :: "db \<Rightarrow> bool" where
  "unique_key tbl = distinct (map (\<lambda>e. (user_id e, date e)) tbl)"

definition rows_for :: "nat \<Rightarrow> string \<Rightarrow> db \<Rightarrow> entry list" where
  "rows_for userId d tbl = filter (\<lambda>e. user_id e = userId \<and> date e = d) tbl"

text \<open>A sequence of upserts, each with its own arguments, run one after the other.\<close>

type_synonym upsert = "string \<times> nat \<times> string \<times> string option \<times> bool \<times> int option"

definition upserts :: "upsert list \<Rightarrow> db \<Rightarrow> db" where
  "upserts ops tbl =
     fold (\<lambda>(now, userId, d, t, skipped_flag, r). createOrUpdateEntry now userId d t skipped_flag r)
       ops tbl"

text \<open>
  The invariant of an entry: a skipped row has neither text nor rating, a row that
  is not skipped has a non-empty text of at least \<open>MIN_CHARS\<close> code units.
\<close>

definition entry_invariant :: "entry \<Rightarrow> bool" where
  "entry_invariant e =
     ((skipped e \<noteq> 0 \<longrightarrow> entry_text e = None \<and> rating e = None) \<and>
      (skipped e = 0 \<longrightarrow>
         (case entry_text e of None \<Rightarrow> False | Some t \<Rightarrow> t \<noteq> [] \<and> MIN_CHARS \<le> length t)))"

text \<open>The reasons for which the specification lets an upsert fail.\<close>

definition date_missing :: "body \<Rightarrow> bool" where
  "date_missing b = (case body_date b of None \<Rightarrow> True | Some d \<Rightarrow> d = [])"

definition date_in_future :: "(string \<Rightarrow> time_value option) \<Rightarrow> time_value \<Rightarrow> body \<Rightarrow> bool" where
  "date_in_future parse today b =
     (case body_date b of
        None \<Rightarrow> False
      | Some d \<Rightarrow> (case parse d of None \<Rightarrow> False | Some entryDate \<Rightarrow> today < entryDate))"

text \<open>
  ``The text is empty or shorter than the configured minimum length when not
  skipped'', read on the text as it is sent; an absent text is empty.
\<close>

definition text_too_short :: "body \<Rightarrow> bool" where
  "text_too_short b =
     (\<not> truthy (body_skipped b) \<and>
      (case body_text b of
         JNull \<Rightarrow> True
       | JStr t \<Rightarrow> t = [] \<or> length t < MIN_CHARS
       | _ \<Rightarrow> False))"

text \<open>
  The same, read on the text with the white space at both ends removed; a text
  that is falsy without being a string counts as absent.
\<close>

definition trimmed_text_too_short :: "body \<Rightarrow> bool" where
  "trimmed_text_too_short b =
     (\<not> truthy (body_skipped b) \<and>
      (case body_text b of
         JStr t \<Rightarrow> trim t = [] \<or> length (trim t) < MIN_CHARS
       | v \<Rightarrow> \<not> truthy v))"

text \<open>The text is a value other than a string, truthy, and the skip flag is not set.\<close>

definition text_not_a_string :: "body \<Rightarrow> bool" where
  "text_not_a_string b =
     (\<not> truthy (body_skipped b) \<and>
      (case body_text b of JStr t \<Rightarrow> False | v \<Rightarrow> truthy v))"

definition rating_invalid :: "body \<Rightarrow> bool" where
  "rating_invalid b = (body_rating b \<notin> {JNull, JNum 1, JNum 2, JNum 3})"

text \<open>
  What an accepted request leaves in the row: with the skip flag no text and no
  rating, without it the text with the white space at both ends removed and the
  rating sent, if any.
\<close>

definition written_text :: "body \<Rightarrow> string option" where
  "written_text b =
     (if truthy (body_skipped b) then None
      else (case body_text b of JStr t \<Rightarrow> Some (trim t) | _ \<Rightarrow> None))"

definition written_rating :: "body \<Rightarrow> int option" where
  "written_rating b =
     (if truthy (body_skipped b) then None
      else (case body_rating b of JNum n \<Rightarrow> Some n | _ \<Rightarrow> None))"

definition invalid_as_claimed :: "(string \<Rightarrow> time_value option) \<Rightarrow> time_value \<Rightarrow> body \<Rightarrow> bool" where
  "invalid_as_claimed parse today b =
     (date_missing b \<or> date_in_future parse today b \<or> text_too_short b \<or> rating_invalid b)"

definition invalid_input :: "(string \<Rightarrow> time_value option) \<Rightarrow> time_value \<Rightarrow> body \<Rightarrow> bool" where
  "invalid_input parse today b =
     (date_missing b \<or> date_in_future parse today b \<or> trimmed_text_too_short b \<or>
      rating_invalid b)"

section \<open>Example data\<close>

text \<open>
  Day 19727 is 2024-01-05 and day 20000 is 2024-10-04. \<open>smile userId d\<close> is the row
  a first accepted entry of 100 characters without rating leaves for date \<open>d\<close>.
\<close>

definition smile_text :: string where
  "smile_text = replicate 100 CHR ''s''"

definition clock :: string where
  "clock = ''2024-01-05T08:30:00.000Z''"

definition smile :: "nat \<Rightarrow> string \<Rightarrow> entry" where
  "smile userId d =
     \<lparr>user_id = userId, date = d, entry_text = Some smile_text, rating = None,
      skipped = 0, created_at = clock, updated_at = clock\<rparr>"

definition three_days :: db where
  "three_days = [smile 1 ''2024-01-03'', smile 1 ''2024-01-04'', smile 1 ''2024-01-05'']"

definition gap_days :: db where
  "gap_days = [smile 1 ''2024-01-01'', smile 1 ''2024-01-03'']"

definition skipped_only :: db where
  "skipped_only =
     [\<lparr>user_id = 1, date = ''2024-01-02'', entry_text = None, rating = None,
       skipped = 1, created_at = clock, updated_at = clock\<rparr>]"

text \<open>
  \<open>smiles_back n\<close>: a qualifying entry on each of the \<open>n\<close> consecutive days that end
  on day 20000. \<open>year_of_smiles\<close> has 366 of them.
\<close>

definition smiles_back :: "nat \<Rightarrow> db" where
  "smiles_back n = map (\<lambda>i. smile 1 (formatDate (20000 - int i))) [0..<n]"

definition year_of_smiles :: db where
  "year_of_smiles = smiles_back 366"

text \<open>
  A zone without offset: the time value of the local midnight of a day,
  \<open>newDate\<close> as a parser of time values, and today, 2024-01-05.
\<close>

definition midnight :: "day \<Rightarrow> time_value" where
  "midnight d = d * 86400000"

definition parse_utc :: "string \<Rightarrow> time_value option" where
  "parse_utc s = map_option midnight (newDate s)"

definition today_utc :: time_value where
  "today_utc = midnight 19727"

text \<open>The rows of another user, on three consecutive days.\<close>

definition other_user_days :: db where
  "other_user_days = [smile 2 ''2024-01-03'', smile 2 ''2024-01-04'', smile 2 ''2024-01-05'']"

text \<open>Ninety-nine letters and a line feed: 100 code units, 99 after \<open>trim\<close>.\<close>

definition padded_body :: body where
  "padded_body =
     \<lparr>body_date = Some ''2024-01-05'',
      body_text = JStr (replicate 99 CHR ''s'' @ [CHR 0x0A]),
      body_rating = JNull, body_skipped = JBool False\<rparr>"

text \<open>A text that is a number.\<close>

definition number_body :: body where
  "number_body =
     \<lparr>body_date = Some ''2024-01-05'', body_text = JNum 123,
      body_rating = JNull, body_skipped = JBool False\<rparr>"

definition good_body :: body where
  "good_body =
     \<lparr>body_date = Some ''2024-01-05'', body_text = JStr smile_text,
      body_rating = JNum 2, body_skipped = JBool False\<rparr>"

text \<open>An entry for the date \<open>d\<close>, with a text of 100 characters and no rating.\<close>

definition dated_body :: "string \<Rightarrow> body" where
  "dated_body d =
     \<lparr>body_date = Some d, body_text = JStr smile_text,
      body_rating = JNull, body_skipped = JBool False\<rparr>"

text \<open>A skip of 2024-01-04 that carries the text \<open>t\<close> and the rating \<open>r\<close>.\<close>

definition skip_body :: "json \<Rightarrow> json \<Rightarrow> body" where
  "skip_body t r =
     \<lparr>body_date = Some ''2024-01-04'', body_text = t,
      body_rating = r, body_skipped = JBool True\<rparr>"

section \<open>Current streak: the walk and its bound\<close>

lemma find_date_None:
  "(find (\<lambda>e. date e = s) es = None) = (\<not> (\<exists>e \<in> set es. date e = s))"
  by (auto simp add: find_None_iff)

lemma streak_loop_spec:
  "i \<le> 365 \<Longrightarrow>
   streak \<le> streak_loop es i streak c \<and>
   i + (streak_loop es i streak c - streak) \<le> 365 \<and>
   (\<forall>j < streak_loop es i streak c - streak. \<exists>e \<in> set es. date e = formatDate (c - int j)) \<and>
   (i + (streak_loop es i streak c - streak) < 365 \<longrightarrow>
      \<not> (\<exists>e \<in> set es. date e = formatDate (c - int (streak_loop es i streak c - streak))))"
proof (induction es i streak c rule: streak_loop.induct)
  case (1 entries i streak checkDate)
  show ?case
  proof (cases "i < 365")
    case False
    then have "streak_loop entries i streak checkDate = streak"
      by (simp add: streak_loop.simps [of entries i])
    with False "1.prems" show ?thesis by simp
  next
    case lt: True
    show ?thesis
    proof (cases "find (\<lambda>e. date e = formatDate checkDate) entries")
      case None
      then have "streak_loop entries i streak checkDate = streak"
        using lt by (simp add: streak_loop.simps [of entries i])
      moreover have "\<not> (\<exists>e \<in> set entries. date e = formatDate checkDate)"
        using None by (simp add: find_date_None)
      ultimately show ?thesis using lt by simp
    next
      case (Some entry)
      let ?r = "streak_loop entries (i + 1) (streak + 1) (checkDate - 1)"
      have eq: "streak_loop entries i streak checkDate = ?r"
        using lt Some by (simp add: streak_loop.simps [of entries i])
      have found: "\<exists>e \<in> set entries. date e = formatDate checkDate"
        using Some find_date_None [of "formatDate checkDate" entries] by auto
      have ih: "streak + 1 \<le> ?r \<and> i + 1 + (?r - (streak + 1)) \<le> 365 \<and>
          (\<forall>j < ?r - (streak + 1). \<exists>e \<in> set entries. date e = formatDate (checkDate - 1 - int j)) \<and>
          (i + 1 + (?r - (streak + 1)) < 365 \<longrightarrow>
             \<not> (\<exists>e \<in> set entries. date e = formatDate (checkDate - 1 - int (?r - (streak + 1)))))"
      proof (rule "1.IH" [OF lt Some])
        show "i + 1 \<le> 365" using lt by simp
      qed
      have ge: "streak + 1 \<le> ?r" using ih by (rule conjunct1)
      have bound: "i + 1 + (?r - (streak + 1)) \<le> 365"
        using ih by (elim conjE)
      have ih_all: "\<forall>j < ?r - (streak + 1).
          \<exists>e \<in> set entries. date e = formatDate (checkDate - 1 - int j)"
        using ih by (elim conjE)
      have ih_stop: "i + 1 + (?r - (streak + 1)) < 365 \<longrightarrow>
          \<not> (\<exists>e \<in> set entries. date e = formatDate (checkDate - 1 - int (?r - (streak + 1))))"
        using ih by (elim conjE)
      have k: "?r - streak = Suc (?r - (streak + 1))" using ge by arith
      have all: "\<forall>j < ?r - streak. \<exists>e \<in> set entries. date e = formatDate (checkDate - int j)"
      proof (intro allI impI)
        fix j assume j: "j < ?r - streak"
        show "\<exists>e \<in> set entries. date e = formatDate (checkDate - int j)"
        proof (cases j)
          case 0
          then show ?thesis using found by simp
        next
          case (Suc j')
          then have "j' < ?r - (streak + 1)" using j k by arith
          then have "\<exists>e \<in> set entries. date e = formatDate (checkDate - 1 - int j')"
            using ih_all by blast
          moreover have "checkDate - 1 - int j' = checkDate - int j" using Suc by simp
          ultimately show ?thesis by metis
        qed
      qed
      have stop: "i + (?r - streak) < 365 \<longrightarrow>
          \<not> (\<exists>e \<in> set entries. date e = formatDate (checkDate - int (?r - streak)))"
      proof
        assume "i + (?r - streak) < 365"
        then have "i + 1 + (?r - (streak + 1)) < 365" using k by arith
        then have "\<not> (\<exists>e \<in> set entries. date e = formatDate (checkDate - 1 - int (?r - (streak + 1))))"
          using ih_stop by blast
        moreover have "checkDate - 1 - int (?r - (streak + 1)) = checkDate - int (?r - streak)"
          using k by simp
        ultimately show "\<not> (\<exists>e \<in> set entries. date e = formatDate (checkDate - int (?r - streak)))"
          by metis
      qed
      have le: "streak \<le> ?r" using ge by arith
      have bound': "i + (?r - streak) \<le> 365" using bound k by arith
      show ?thesis unfolding eq using le bound' all stop by blast
    qed
  qed
qed

lemma set_entries_desc:
  "(\<exists>e \<in> set (rev (sort_key date (qualifying userId tbl))). date e = formatDate d) =
   has_qualifying userId tbl d"
  by (auto simp add: has_qualifying_def qualifying_def)

lemma getStreak_spec:
  "getStreak today userId tbl \<le> 365 \<and>
   (\<forall>j < getStreak today userId tbl. has_qualifying userId tbl (today - int j)) \<and>
   (getStreak today userId tbl < 365 \<longrightarrow>
      \<not> has_qualifying userId tbl (today - int (getStreak today userId tbl)))"
proof (cases "qualifying userId tbl = []")
  case True
  then have "getStreak today userId tbl = 0" by (simp add: getStreak_def)
  moreover have "\<not> has_qualifying userId tbl today"
    using True by (auto simp add: has_qualifying_def qualifying_def filter_empty_conv)
  ultimately show ?thesis by simp
next
  case False
  let ?es = "rev (sort_key date (qualifying userId tbl))"
  have "?es \<noteq> []" using False by (metis length_rev length_sort length_0_conv)
  then have eq: "getStreak today userId tbl = streak_loop ?es 0 0 today"
    by (simp add: getStreak_def Let_def)
  show ?thesis
    unfolding eq using streak_loop_spec [of 0 0 ?es today]
    by (simp add: set_entries_desc [symmetric] del: set_rev set_sort)
qed

lemma smiles_back_has:
  "j < n \<Longrightarrow> has_qualifying 1 (smiles_back n) (20000 - int j)"
  unfolding has_qualifying_def smiles_back_def
  by (rule bexI [of _ "smile 1 (formatDate (20000 - int j))"]) (simp_all add: smile_def)

lemma year_of_smiles_has:
  "j < 366 \<Longrightarrow> has_qualifying 1 year_of_smiles (20000 - int j)"
  unfolding year_of_smiles_def by (rule smiles_back_has)

lemma year_of_smiles_streak: "getStreak 20000 1 year_of_smiles = 365"
proof (rule ccontr)
  assume ne: "getStreak 20000 1 year_of_smiles \<noteq> 365"
  have le: "getStreak 20000 1 year_of_smiles \<le> 365"
    using getStreak_spec [of 20000 1 year_of_smiles] by (rule conjunct1)
  from ne le have lt: "getStreak 20000 1 year_of_smiles < 365" by arith
  then have "\<not> has_qualifying 1 year_of_smiles (20000 - int (getStreak 20000 1 year_of_smiles))"
    using getStreak_spec [of 20000 1 year_of_smiles] by blast
  moreover have "has_qualifying 1 year_of_smiles (20000 - int (getStreak 20000 1 year_of_smiles))"
    using lt by (intro year_of_smiles_has) arith
  ultimately show False by contradiction
qed




lemma getStreak_window:
  assumes "\<forall>i \<in> {0..<365}. has_qualifying userId tbl (today - int i) =
      has_qualifying userId tbl' (today - int i)"
  shows "getStreak today userId tbl \<le> getStreak today userId tbl'"
proof (rule ccontr)
  let ?n = "getStreak today userId tbl" and ?n' = "getStreak today userId tbl'"
  assume "\<not> ?n \<le> ?n'"
  then have lt: "?n' < ?n" by simp
  have le: "?n \<le> 365" using getStreak_spec [of today userId tbl] by (rule conjunct1)
  have "has_qualifying userId tbl (today - int ?n')"
    using getStreak_spec [of today userId tbl] lt by blast
  moreover have "\<not> has_qualifying userId tbl' (today - int ?n')"
    using getStreak_spec [of today userId tbl'] lt le by simp
  moreover have "?n' \<in> {0..<365}" using lt le by simp
  ultimately show False using assms by blast
qed

text \<open>
  C8: the walk of the current streak is bounded. \<open>streak_loop\<close> terminates, its
  counter \<open>i\<close> running up to 365, so \<open>getStreak\<close> returns for every table, and what
  it returns is an integer between 0 and 365. The walk looks at no day before
  \<open>today - 364\<close>: two tables with a qualifying entry on the same days among the
  365 days up to today give the same streak.
\<close>

theorem getStreak_at_most_365:
  "0 \<le> int (getStreak today userId tbl) \<and> int (getStreak today userId tbl) \<le> 365 \<and>
   ((\<forall>i \<in> {0..<365}. has_qualifying userId tbl (today - int i) =
        has_qualifying userId tbl' (today - int i)) \<longrightarrow>
      getStreak today userId tbl = getStreak today userId tbl')"
proof -
  have w: "(\<forall>i \<in> {0..<365}. has_qualifying userId tbl (today - int i) =
        has_qualifying userId tbl' (today - int i)) \<longrightarrow>
      getStreak today userId tbl = getStreak today userId tbl'"
  proof
    assume a: "\<forall>i \<in> {0..<365}. has_qualifying userId tbl (today - int i) =
        has_qualifying userId tbl' (today - int i)"
    then have b: "\<forall>i \<in> {0..<365}. has_qualifying userId tbl' (today - int i) =
        has_qualifying userId tbl (today - int i)" by simp
    have "getStreak today userId tbl \<le> getStreak today userId tbl'"
      using a by (rule getStreak_window)
    moreover have "getStreak today userId tbl' \<le> getStreak today userId tbl"
      using b by (rule getStreak_window)
    ultimately show "getStreak today userId tbl = getStreak today userId tbl'" by simp
  qed
  show ?thesis using getStreak_spec [of today userId tbl] w by simp
qed

theorem getStreak_at_most_365_witness:
  "getStreak 20000 1 year_of_smiles = 365 \<and>
   0 \<le> int (getStreak 20000 1 year_of_smiles) \<and> int (getStreak 20000 1 year_of_smiles) \<le> 365 \<and>
   getStreak 20000 1 (smiles_back 365) = 365"
proof -
  note t = getStreak_at_most_365 [of 20000 1 year_of_smiles "smiles_back 365"]
  have "\<forall>i \<in> {0..<365}. has_qualifying 1 year_of_smiles (20000 - int i) =
      has_qualifying 1 (smiles_back 365) (20000 - int i)"
  proof
    fix i :: nat assume "i \<in> {0..<365}"
    then have a: "i < 366" and b: "i < 365" by simp_all
    have "has_qualifying 1 year_of_smiles (20000 - int i)" using a by (rule year_of_smiles_has)
    moreover have "has_qualifying 1 (smiles_back 365) (20000 - int i)"
      using b by (rule smiles_back_has)
    ultimately show "has_qualifying 1 year_of_smiles (20000 - int i) =
      has_qualifying 1 (smiles_back 365) (20000 - int i)" by simp
  qed
  then have "getStreak 20000 1 year_of_smiles = getStreak 20000 1 (smiles_back 365)"
    using t by blast
  then show ?thesis using t year_of_smiles_streak by simp
qed

section \<open>Missed days\<close>




section \<open>Longest streak\<close>

lemma diffDays_one:
  "(diffDays (parse (date nxt)) (parse (date prev)) = Some 1) = one_day_apart parse prev nxt"
  by (auto simp add: diffDays_def one_day_apart_def split: option.splits)

lemma is_run_iff:
  "is_run parse es s n =
     (0 < n \<and> s + n \<le> length es \<and>
      (\<forall>k. s \<le> k \<and> k + 1 < s + n \<longrightarrow> one_day_apart parse (es ! k) (es ! (k + 1))))"
  unfolding is_run_def by (rule conj_cong [OF refl], rule conj_cong [OF refl]) force

lemma longest_loop_spec:
  assumes "b < i" and "i \<le> length es" and "c = i - b"
    and A: "\<forall>k. b \<le> k \<and> k + 1 < i \<longrightarrow> one_day_apart parse (es ! k) (es ! (k + 1))"
    and B: "0 < b \<longrightarrow> \<not> one_day_apart parse (es ! (b - 1)) (es ! b)"
    and C: "\<exists>s. is_run parse es s L"
    and D: "\<forall>s n. is_run parse es s n \<and> s + n \<le> i \<longrightarrow> n \<le> L"
    and E: "c \<le> L"
  shows "(\<exists>s. is_run parse es s (longest_loop parse es i L c)) \<and>
         (\<forall>s n. is_run parse es s n \<longrightarrow> n \<le> longest_loop parse es i L c)"
  using assms
proof (induction parse es i L c arbitrary: b rule: longest_loop.induct)
  case (1 parse entries i longestStreak currentStreak)
  note A = "1.prems"(4) and B = "1.prems"(5) and C = "1.prems"(6) and D = "1.prems"(7)
    and E = "1.prems"(8)
  show ?case
  proof (cases "i < length entries")
    case False
    then have i: "i = length entries" using "1.prems"(2) by simp
    have eq: "longest_loop parse entries i longestStreak currentStreak = longestStreak"
      using False by (simp add: longest_loop.simps [of parse entries i])
    have "\<forall>s n. is_run parse entries s n \<longrightarrow> n \<le> longestStreak"
      using D i by (auto simp add: is_run_iff)
    then show ?thesis unfolding eq using C by blast
  next
    case lt: True
    show ?thesis
    proof (cases "one_day_apart parse (entries ! (i - 1)) (entries ! i)")
      case apart: True
      have eq: "longest_loop parse entries i longestStreak currentStreak =
          longest_loop parse entries (i + 1) (max longestStreak (currentStreak + 1)) (currentStreak + 1)"
        using lt apart by (simp add: longest_loop.simps [of parse entries i] Let_def diffDays_one)
      have d1: "diffDays (parse (date (entries ! i))) (parse (date (entries ! (i - 1)))) = Some 1"
        using apart by (simp add: diffDays_one)
      have A': "\<forall>k. b \<le> k \<and> k + 1 < i + 1 \<longrightarrow> one_day_apart parse (entries ! k) (entries ! (k + 1))"
      proof (intro allI impI)
        fix k assume k: "b \<le> k \<and> k + 1 < i + 1"
        show "one_day_apart parse (entries ! k) (entries ! (k + 1))"
        proof (cases "k + 1 < i")
          case True
          then show ?thesis using A k by blast
        next
          case False
          then have "k = i - 1" and "k + 1 = i" using k by arith+
          then show ?thesis using apart by simp
        qed
      qed
      have run: "is_run parse entries b (currentStreak + 1)"
        unfolding is_run_iff using A' "1.prems"(1,3) lt by auto
      have C': "\<exists>s. is_run parse entries s (max longestStreak (currentStreak + 1))"
      proof (cases "longestStreak \<le> currentStreak + 1")
        case True
        then have "max longestStreak (currentStreak + 1) = currentStreak + 1" by simp
        then show ?thesis using run by auto
      next
        case False
        then have "max longestStreak (currentStreak + 1) = longestStreak" by simp
        then show ?thesis using C by simp
      qed
      have D': "\<forall>s n. is_run parse entries s n \<and> s + n \<le> i + 1 \<longrightarrow>
          n \<le> max longestStreak (currentStreak + 1)"
      proof (intro allI impI)
        fix s n assume r: "is_run parse entries s n \<and> s + n \<le> i + 1"
        show "n \<le> max longestStreak (currentStreak + 1)"
        proof (cases "s + n \<le> i")
          case True
          then have "n \<le> longestStreak" using D r by blast
          then show ?thesis by simp
        next
          case False
          then have sn: "s + n = i + 1" using r by simp
          have "n \<le> currentStreak + 1"
          proof (rule ccontr)
            assume "\<not> n \<le> currentStreak + 1"
            then have "s < b" using sn "1.prems"(1,3) by arith
            then have "s \<le> b - 1 \<and> (b - 1) + 1 < s + n" and "0 < b"
              using sn "1.prems"(1) by arith+
            then have "one_day_apart parse (entries ! (b - 1)) (entries ! ((b - 1) + 1))"
              using r unfolding is_run_iff by blast
            then show False using B \<open>0 < b\<close> by simp
          qed
          then show ?thesis by simp
        qed
      qed
      show ?thesis
        unfolding eq
      proof (rule "1.IH"(1) [OF lt refl refl d1, of b])
        show "b < i + 1" using "1.prems"(1) by simp
        show "i + 1 \<le> length entries" using lt by simp
        show "currentStreak + 1 = i + 1 - b" using "1.prems"(1,3) by simp
        show "\<forall>k. b \<le> k \<and> k + 1 < i + 1 \<longrightarrow> one_day_apart parse (entries ! k) (entries ! (k + 1))"
          by (rule A')
        show "0 < b \<longrightarrow> \<not> one_day_apart parse (entries ! (b - 1)) (entries ! b)" by (rule B)
        show "\<exists>s. is_run parse entries s (max longestStreak (currentStreak + 1))" by (rule C')
        show "\<forall>s n. is_run parse entries s n \<and> s + n \<le> i + 1 \<longrightarrow>
          n \<le> max longestStreak (currentStreak + 1)" by (rule D')
        show "currentStreak + 1 \<le> max longestStreak (currentStreak + 1)" by simp
      qed
    next
      case gap: False
      have d1: "diffDays (parse (date (entries ! i))) (parse (date (entries ! (i - 1)))) \<noteq> Some 1"
        using gap by (simp add: diffDays_one)
      have eq: "longest_loop parse entries i longestStreak currentStreak =
          longest_loop parse entries (i + 1) longestStreak 1"
        using lt d1 by (simp add: longest_loop.simps [of parse entries i] Let_def)
      have c1: "1 \<le> currentStreak" using "1.prems"(1,3) by simp
      have D': "\<forall>s n. is_run parse entries s n \<and> s + n \<le> i + 1 \<longrightarrow> n \<le> longestStreak"
      proof (intro allI impI)
        fix s n assume r: "is_run parse entries s n \<and> s + n \<le> i + 1"
        show "n \<le> longestStreak"
        proof (cases "s + n \<le> i")
          case True
          then show ?thesis using D r by blast
        next
          case False
          then have sn: "s + n = i + 1" using r by simp
          have "n \<le> 1"
          proof (rule ccontr)
            assume "\<not> n \<le> 1"
            then have "s \<le> i - 1 \<and> (i - 1) + 1 < s + n" and "0 < i"
              using sn by arith+
            then have "one_day_apart parse (entries ! (i - 1)) (entries ! ((i - 1) + 1))"
              using r unfolding is_run_iff by blast
            then show False using gap \<open>0 < i\<close> by simp
          qed
          then show ?thesis using c1 E by simp
        qed
      qed
      show ?thesis
        unfolding eq
      proof (rule "1.IH"(2) [OF lt refl refl d1, of i])
        show "i < i + 1" by simp
        show "i + 1 \<le> length entries" using lt by simp
        show "1 = i + 1 - i" by simp
        show "\<forall>k. i \<le> k \<and> k + 1 < i + 1 \<longrightarrow> one_day_apart parse (entries ! k) (entries ! (k + 1))"
          by auto
        show "0 < i \<longrightarrow> \<not> one_day_apart parse (entries ! (i - 1)) (entries ! i)" using gap by simp
        show "\<exists>s. is_run parse entries s longestStreak" by (rule C)
        show "\<forall>s n. is_run parse entries s n \<and> s + n \<le> i + 1 \<longrightarrow> n \<le> longestStreak" by (rule D')
        show "1 \<le> longestStreak" using c1 E by simp
      qed
    qed
  qed
qed

lemma longest_two_gap:
  assumes "sort_key date (qualifying userId tbl) = [a, b]"
    and "\<not> one_day_apart parse a b"
  shows "getLongestStreak parse userId tbl = 1"
proof -
  have s2: "longest_loop parse [a, b] (1 + 1) 1 1 = 1"
    by (subst longest_loop.simps) simp
  have s1: "longest_loop parse [a, b] 1 1 1 = longest_loop parse [a, b] (1 + 1) 1 1"
    by (subst longest_loop.simps) (simp add: diffDays_one assms(2) Let_def)
  show ?thesis
    using assms(1) s1 s2 by (simp add: getLongestStreak_def Let_def)
qed



lemma qualifying_filter:
  "qualifying userId tbl =
     filter (\<lambda>e. user_id e = userId \<and> skipped e = 0 \<and> entry_text e \<noteq> None) tbl"
  by (simp add: qualifying_def)

text \<open>
  C3: for every user the longest streak is taken over the user's qualifying
  entries (the rows of that user that are not skipped and have a text) in
  ascending order of date, and is the greatest length of a run of them in which
  each entry is exactly one calendar day after the one before. A single entry is
  a run of length 1, so a gap sets the count back to 1, not 0. Without
  qualifying entries the result is 0. Two qualifying entries on \<open>D\<close> and \<open>D + 2\<close>,
  with none on \<open>D + 1\<close>, give 1, not 2: their midnights are two days apart, and
  a day and a half is enough. This holds however the engine reads the dates
  (\<open>parse\<close>).
\<close>

theorem getLongestStreak_is_longest_run:
  "es = sort_key date
          (filter (\<lambda>e. user_id e = userId \<and> skipped e = 0 \<and> entry_text e \<noteq> None) tbl) \<Longrightarrow>
   (es = [] \<longrightarrow> getLongestStreak parse userId tbl = 0) \<and>
   (es \<noteq> [] \<longrightarrow>
      (\<exists>s. is_run parse es s (getLongestStreak parse userId tbl)) \<and>
      (\<forall>s n. is_run parse es s n \<longrightarrow> n \<le> getLongestStreak parse userId tbl)) \<and>
   (es = [a, b] \<and> parse (date a) = Some p \<and> parse (date b) = Some c \<and>
    129600000 \<le> c - p \<longrightarrow> getLongestStreak parse userId tbl = 1)"
proof -
  assume "es = sort_key date
      (filter (\<lambda>e. user_id e = userId \<and> skipped e = 0 \<and> entry_text e \<noteq> None) tbl)"
  then have es: "es = sort_key date (qualifying userId tbl)"
    by (simp only: qualifying_filter)
  have c1: "es = [] \<longrightarrow> getLongestStreak parse userId tbl = 0"
    using es by (simp add: getLongestStreak_def)
  have c2: "es \<noteq> [] \<longrightarrow>
      (\<exists>s. is_run parse es s (getLongestStreak parse userId tbl)) \<and>
      (\<forall>s n. is_run parse es s n \<longrightarrow> n \<le> getLongestStreak parse userId tbl)"
  proof
    assume ne: "es \<noteq> []"
    then have eq: "getLongestStreak parse userId tbl = longest_loop parse es 1 1 1"
      using es by (simp add: getLongestStreak_def Let_def)
    have len: "1 \<le> length es" using ne by (cases es) simp_all
    have "(\<exists>s. is_run parse es s (longest_loop parse es 1 1 1)) \<and>
          (\<forall>s n. is_run parse es s n \<longrightarrow> n \<le> longest_loop parse es 1 1 1)"
    proof (rule longest_loop_spec [of 0 1 es 1 parse 1])
      show "(0::nat) < 1" by simp
      show "1 \<le> length es" by (rule len)
      show "(1::nat) = 1 - 0" by simp
      show "\<forall>k. 0 \<le> k \<and> k + 1 < 1 \<longrightarrow> one_day_apart parse (es ! k) (es ! (k + 1))" by simp
      show "0 < (0::nat) \<longrightarrow> \<not> one_day_apart parse (es ! (0 - 1)) (es ! 0)" by simp
      show "\<exists>s. is_run parse es s 1"
        using len by (auto simp add: is_run_def intro: exI [of _ 0])
      show "\<forall>s n. is_run parse es s n \<and> s + n \<le> 1 \<longrightarrow> n \<le> 1" by simp
      show "(1::nat) \<le> 1" by simp
    qed
    then show "(\<exists>s. is_run parse es s (getLongestStreak parse userId tbl)) \<and>
      (\<forall>s n. is_run parse es s n \<longrightarrow> n \<le> getLongestStreak parse userId tbl)"
      unfolding eq by blast
  qed
  have c3: "es = [a, b] \<and> parse (date a) = Some p \<and> parse (date b) = Some c \<and>
      129600000 \<le> c - p \<longrightarrow> getLongestStreak parse userId tbl = 1"
  proof
    assume h: "es = [a, b] \<and> parse (date a) = Some p \<and> parse (date b) = Some c \<and>
      129600000 \<le> c - p"
    then have "\<not> one_day_apart parse a b" by (simp add: one_day_apart_def)
    moreover have "sort_key date (qualifying userId tbl) = [a, b]" using h es by simp
    ultimately show "getLongestStreak parse userId tbl = 1" by (intro longest_two_gap)
  qed
  show ?thesis using c1 c2 c3 by blast
qed

theorem getLongestStreak_is_longest_run_witness:
  "sort_key date
     (filter (\<lambda>e. user_id e = 1 \<and> skipped e = 0 \<and> entry_text e \<noteq> None) gap_days) =
     [smile 1 ''2024-01-01'', smile 1 ''2024-01-03''] \<and>
   parse_utc ''2024-01-01'' = Some (midnight 19723) \<and>
   parse_utc ''2024-01-03'' = Some (midnight 19725) \<and>
   getLongestStreak parse_utc 1 gap_days = 1 \<and>
   getLongestStreak parse_utc 1 skipped_only = 0 \<and>
   getLongestStreak parse_utc 1 other_user_days = 0 \<and>
   getLongestStreak parse_utc 2 other_user_days = 3 \<and>
   getLongestStreak parse_utc 1 three_days = 3 \<and>
   getLongestStreak parse_utc 1 [smile 1 ''2024-01-02'', smile 1 ''2024-01''] = 2"
proof -
  have s: "sort_key date
     (filter (\<lambda>e. user_id e = 1 \<and> skipped e = 0 \<and> entry_text e \<noteq> None) gap_days) =
     [smile 1 ''2024-01-01'', smile 1 ''2024-01-03'']" by code_simp
  have a: "parse_utc (date (smile 1 ''2024-01-01'')) = Some (midnight 19723)" by code_simp
  have b: "parse_utc (date (smile 1 ''2024-01-03'')) = Some (midnight 19725)" by code_simp
  have d: "129600000 \<le> midnight 19725 - midnight 19723" by code_simp
  have g: "getLongestStreak parse_utc 1 gap_days = 1"
    using getLongestStreak_is_longest_run [OF s [symmetric],
        where a = "smile 1 ''2024-01-01''" and b = "smile 1 ''2024-01-03''"
          and parse = parse_utc and p = "midnight 19723" and c = "midnight 19725"] a b d
    by blast
  have q: "[] = sort_key date
     (filter (\<lambda>e. user_id e = 1 \<and> skipped e = 0 \<and> entry_text e \<noteq> None) skipped_only)"
    by code_simp
  have z: "getLongestStreak parse_utc 1 skipped_only = 0"
    using getLongestStreak_is_longest_run [OF q, where parse = parse_utc] by blast
  have q': "[] = sort_key date
     (filter (\<lambda>e. user_id e = 1 \<and> skipped e = 0 \<and> entry_text e \<noteq> None) other_user_days)"
    by code_simp
  have z': "getLongestStreak parse_utc 1 other_user_days = 0"
    using getLongestStreak_is_longest_run [OF q', where parse = parse_utc] by blast
  have o: "getLongestStreak parse_utc 2 other_user_days = 3" by code_simp
  have t: "getLongestStreak parse_utc 1 three_days = 3" by code_simp
  have m: "getLongestStreak parse_utc 1 [smile 1 ''2024-01-02'', smile 1 ''2024-01''] = 2"
    by code_simp
  show ?thesis using s a b g z z' o t m by (simp add: smile_def)
qed

section \<open>Upsert\<close>

lemma upsert_keys:
  "\<exists>e \<in> set tbl. user_id e = userId \<and> date e = d \<Longrightarrow>
   map (\<lambda>e. (user_id e, date e)) (createOrUpdateEntry now userId d t s r tbl) =
   map (\<lambda>e. (user_id e, date e)) tbl"
  by (auto simp add: createOrUpdateEntry_def)

lemma upsert_unique:
  "unique_key tbl \<Longrightarrow> unique_key (createOrUpdateEntry now userId d t s r tbl)"
proof (cases "\<exists>e \<in> set tbl. user_id e = userId \<and> date e = d")
  case True
  assume "unique_key tbl"
  then show ?thesis using upsert_keys [OF True] by (simp add: unique_key_def)
next
  case False
  assume "unique_key tbl"
  then show ?thesis using False by (auto simp add: unique_key_def createOrUpdateEntry_def)
qed

lemma upserts_unique:
  "unique_key tbl \<Longrightarrow> unique_key (upserts ops tbl)"
  unfolding upserts_def
  by (induction ops arbitrary: tbl) (auto simp add: upsert_unique)

lemma unique_rows_for:
  "unique_key tbl \<Longrightarrow> length (rows_for userId d tbl) \<le> 1"
  unfolding unique_key_def rows_for_def
  by (induction tbl) (auto simp add: filter_empty_conv image_iff)

lemma find_map_update:
  "(\<And>e. P e \<Longrightarrow> P (g e)) \<Longrightarrow>
   find P (map (\<lambda>e. if P e then g e else e) xs) = map_option g (find P xs)"
  by (induction xs) auto

lemma find_append_new:
  "\<not> (\<exists>e \<in> set xs. P e) \<Longrightarrow> P x \<Longrightarrow> find P (xs @ [x]) = Some x"
  by (induction xs) auto

lemma getEntry_upsert:
  "\<exists>row. getEntry userId d (createOrUpdateEntry now userId d t s r tbl) = Some row \<and>
     user_id row = userId \<and> date row = d \<and> entry_text row = t \<and> rating row = r \<and>
     skipped row = (if s then 1 else 0) \<and> updated_at row = now"
proof (cases "\<exists>e \<in> set tbl. user_id e = userId \<and> date e = d")
  case True
  then obtain e0 where e0: "find (\<lambda>e. user_id e = userId \<and> date e = d) tbl = Some e0"
    by (cases "find (\<lambda>e. user_id e = userId \<and> date e = d) tbl")
       (auto simp add: find_None_iff)
  then have k: "user_id e0 = userId \<and> date e0 = d"
    by (auto simp add: find_Some_iff)
  have "getEntry userId d (createOrUpdateEntry now userId d t s r tbl) =
      Some (e0\<lparr>entry_text := t, rating := r, skipped := (if s then 1 else 0), updated_at := now\<rparr>)"
    using True e0
    by (simp add: getEntry_def createOrUpdateEntry_def
        find_map_update [where P = "\<lambda>e. user_id e = userId \<and> date e = d"])
  then show ?thesis using k by simp
next
  case False
  let ?new = "\<lparr>user_id = userId, date = d, entry_text = t, rating = r,
      skipped = (if s then 1 else 0), created_at = now, updated_at = now\<rparr>"
  have "createOrUpdateEntry now userId d t s r tbl = tbl @ [?new]"
    using False unfolding createOrUpdateEntry_def by (simp only: if_False)
  moreover have "find (\<lambda>e. user_id e = userId \<and> date e = d) (tbl @ [?new]) = Some ?new"
    using False by (intro find_append_new) simp_all
  ultimately have "getEntry userId d (createOrUpdateEntry now userId d t s r tbl) = Some ?new"
    by (simp only: getEntry_def)
  then show ?thesis by simp
qed

lemma getEntry_rows_for:
  "getEntry userId d tbl = Some row \<Longrightarrow> unique_key tbl \<Longrightarrow> rows_for userId d tbl = [row]"
proof -
  assume g: "getEntry userId d tbl = Some row" and u: "unique_key tbl"
  have "row \<in> set (rows_for userId d tbl)"
    using g by (auto simp add: getEntry_def rows_for_def find_Some_iff)
  moreover have "length (rows_for userId d tbl) \<le> 1" using u by (rule unique_rows_for)
  ultimately show ?thesis by (cases "rows_for userId d tbl") auto
qed

lemma upsert_rows_inv:
  "e \<in> set (createOrUpdateEntry now userId d t s r tbl) \<Longrightarrow>
   (user_id e = userId \<and> date e = d \<and> entry_text e = t \<and> rating e = r \<and>
      skipped e = (if s then 1 else 0) \<and> updated_at e = now) \<or>
   (e \<in> set tbl \<and> \<not> (user_id e = userId \<and> date e = d))"
  by (auto simp add: createOrUpdateEntry_def split: if_splits)

lemma trim_Nil: "trim [] = []"
  by (simp add: trim_def)

lemma rating_column_or_null:
  "v \<in> {JNull, JNum 1, JNum 2, JNum 3} \<Longrightarrow>
   rating_column (or_null v) = (case v of JNum n \<Rightarrow> Some n | _ \<Rightarrow> None)"
  by (auto simp add: rating_column_def or_null_def truthy_def)

lemma post_entry_date_missing:
  "date_missing b \<Longrightarrow>
   post_entry parse today now userId b tbl = (Inl (ValidationError ''Date is required''), tbl)"
  by (auto simp add: post_entry_def date_missing_def split: option.splits)

lemma post_entry_text_not_a_string:
  "\<not> date_missing b \<Longrightarrow> text_not_a_string b \<Longrightarrow>
   post_entry parse today now userId b tbl = (Inl (ServerError ''Server error''), tbl)"
  by (auto simp add: post_entry_def date_missing_def text_not_a_string_def
      split: option.splits json.splits)

lemma post_entry_invalid:
  "\<not> text_not_a_string b \<Longrightarrow> invalid_input parse today b \<Longrightarrow>
   \<exists>msg. post_entry parse today now userId b tbl = (Inl (ValidationError msg), tbl)"
  by (auto simp add: post_entry_def invalid_input_def date_missing_def date_in_future_def
      trimmed_text_too_short_def text_not_a_string_def rating_invalid_def trim_Nil truthy_def
      split: option.splits json.splits)

lemma post_entry_valid:
  "\<not> text_not_a_string b \<Longrightarrow> \<not> invalid_input parse today b \<Longrightarrow>
   \<exists>d s. body_date b = Some d \<and> d \<noteq> [] \<and> saved_date s = d \<and>
     saved_skipped s = truthy (body_skipped b) \<and> saved_rating s = written_rating b \<and>
     post_entry parse today now userId b tbl =
       (Inr s, createOrUpdateEntry now userId d (written_text b) (truthy (body_skipped b))
          (written_rating b) tbl)"
proof -
  assume ns: "\<not> text_not_a_string b" and v: "\<not> invalid_input parse today b"
  from v obtain d where d: "body_date b = Some d" and ne: "d \<noteq> []"
    by (auto simp add: invalid_input_def date_missing_def split: option.splits)
  have r: "body_rating b \<in> {JNull, JNum 1, JNum 2, JNum 3}"
    using v by (simp add: invalid_input_def rating_invalid_def)
  have wr: "(if truthy (body_skipped b) then None
      else rating_column (or_null (body_rating b))) = written_rating b"
    using rating_column_or_null [OF r] by (simp add: written_rating_def)
  have nf: "\<not> (case parse d of None \<Rightarrow> False | Some entryDate \<Rightarrow> entryDate > today)"
    using v d by (auto simp add: invalid_input_def date_in_future_def split: option.splits)
  have nr: "\<not> (body_rating b \<noteq> JNull \<and> body_rating b \<notin> set [JNum 1, JNum 2, JNum 3])"
    using r by auto
  have tx: "truthy (body_skipped b) \<or>
      (\<exists>t. body_text b = JStr t \<and> trim t \<noteq> [] \<and> \<not> length (trim t) < MIN_CHARS)"
    using v ns
    by (auto simp add: invalid_input_def trimmed_text_too_short_def text_not_a_string_def
        split: json.splits)
  have t1: "\<not> (\<not> truthy (body_skipped b) \<and> \<not> truthy (body_text b))"
    using tx by (auto simp add: truthy_def trim_Nil)
  have t2: "\<not> (\<not> truthy (body_skipped b) \<and>
      (case body_text b of JStr t \<Rightarrow> False | _ \<Rightarrow> True))"
    using tx by auto
  have t3: "\<not> (\<not> truthy (body_skipped b) \<and>
      (case body_text b of JStr t \<Rightarrow> trim t = [] | _ \<Rightarrow> False))"
    using tx by auto
  have t4: "\<not> (\<not> truthy (body_skipped b) \<and>
      (case body_text b of JStr t \<Rightarrow> length (trim t) < MIN_CHARS | _ \<Rightarrow> False))"
    using tx by auto
  let ?s = "\<lparr>message = (if truthy (body_skipped b) then ''Day skipped'' else ''Entry saved''),
      saved_date = d, saved_rating = written_rating b,
      saved_skipped = truthy (body_skipped b)\<rparr>"
  have "post_entry parse today now userId b tbl =
      (Inr ?s, createOrUpdateEntry now userId d (written_text b) (truthy (body_skipped b))
         (written_rating b) tbl)"
    unfolding post_entry_def
    using d ne t1 t2 t3 t4 nr nf wr by (simp add: written_text_def)
  then show ?thesis using d ne by (intro exI [of _ d] exI [of _ ?s]) simp
qed

lemma new_row_invariant:
  assumes "\<not> text_not_a_string b" and "\<not> invalid_input parse today b"
    and "entry_text e = written_text b"
    and "rating e = written_rating b"
    and "skipped e = (if truthy (body_skipped b) then 1 else 0)"
  shows "entry_invariant e"
  using assms
  by (auto simp add: invalid_input_def trimmed_text_too_short_def text_not_a_string_def
      entry_invariant_def written_text_def written_rating_def
      split: json.splits)

lemma post_entry_success:
  assumes "post_entry parse today now userId b tbl = (Inr s, tbl')"
  shows "\<not> text_not_a_string b \<and> \<not> invalid_input parse today b"
proof -
  have "\<not> date_missing b"
    using assms post_entry_date_missing [of b parse today now userId tbl] by auto
  then have ns: "\<not> text_not_a_string b"
    using assms post_entry_text_not_a_string [of b parse today now userId tbl] by auto
  then have "\<not> invalid_input parse today b"
    using assms post_entry_invalid [of b parse today now userId tbl] by auto
  then show ?thesis using ns by simp
qed

text \<open>
  C4 as the specification words it: the upsert fails with a validation error
  exactly when the date is missing, the date is in the future, the text is empty
  or shorter than the minimum length when not skipped, or the rating is outside
  1, 2, 3, and succeeds on any other input. It fails on a text of 99 letters
  followed by a line feed: the text as sent has 100 code units, none of the four
  reasons holds, and the upsert is refused, because the length is taken after
  \<^verbatim>\<open>trim()\<close>. It also fails on a text that is the number 123: none of the four
  reasons holds, and the handler answers with status 500.
\<close>

theorem post_entry_padded_text_counterexample:
  "length (replicate 99 CHR ''s'' @ [CHR 0x0A]) = MIN_CHARS \<and>
   \<not> invalid_as_claimed parse_utc today_utc padded_body \<and>
   post_entry parse_utc today_utc clock 1 padded_body [] =
     (Inl (ValidationError ''Entry must be at least 100 characters''), []) \<and>
   \<not> invalid_as_claimed parse_utc today_utc number_body \<and>
   post_entry parse_utc today_utc clock 1 number_body [] =
     (Inl (ServerError ''Server error''), [])"
  by code_simp

text \<open>
  C4, amended, for a request whose date is a string where present. Leaving
  aside a text that is truthy and not a string, sent without the skip flag: the
  upsert fails with a validation error exactly when the date is missing (absent
  or empty), the date is in the future of today as the engine reads it, the text
  with the white space at both ends removed is empty or shorter than the minimum
  length when not skipped, or the rating is outside 1, 2, 3; for any other
  input, whatever the table holds and so whatever older days are still missed,
  it succeeds and the table becomes the result of the one insert-or-replace for
  that user and date, which then holds a row for them. With such a text, the
  upsert fails with a validation error when the date is missing and with the
  status 500 otherwise. In no case of failure is anything written.
\<close>

theorem post_entry_fails_exactly_when_invalid:
  "(\<not> text_not_a_string b \<longrightarrow>
      (invalid_input parse today b \<longrightarrow>
         (\<exists>msg. post_entry parse today now userId b tbl = (Inl (ValidationError msg), tbl))) \<and>
      (\<not> invalid_input parse today b \<longrightarrow>
         (\<exists>d s row. body_date b = Some d \<and>
            post_entry parse today now userId b tbl =
              (Inr s, createOrUpdateEntry now userId d (written_text b)
                 (truthy (body_skipped b)) (written_rating b) tbl) \<and>
            getEntry userId d (snd (post_entry parse today now userId b tbl)) = Some row \<and>
            entry_text row = written_text b \<and> rating row = written_rating b \<and>
            updated_at row = now))) \<and>
   (text_not_a_string b \<longrightarrow>
      (date_missing b \<longrightarrow>
         post_entry parse today now userId b tbl =
           (Inl (ValidationError ''Date is required''), tbl)) \<and>
      (\<not> date_missing b \<longrightarrow>
         post_entry parse today now userId b tbl = (Inl (ServerError ''Server error''), tbl)))"
proof -
  let ?R = "post_entry parse today now userId b tbl"
  have c1: "\<not> text_not_a_string b \<and> invalid_input parse today b \<longrightarrow>
      (\<exists>msg. ?R = (Inl (ValidationError msg), tbl))"
    using post_entry_invalid [of b parse today now userId tbl] by blast
  have c2: "\<not> text_not_a_string b \<and> \<not> invalid_input parse today b \<longrightarrow>
      (\<exists>d s row. body_date b = Some d \<and>
         ?R = (Inr s, createOrUpdateEntry now userId d (written_text b)
                 (truthy (body_skipped b)) (written_rating b) tbl) \<and>
         getEntry userId d (snd ?R) = Some row \<and>
         entry_text row = written_text b \<and> rating row = written_rating b \<and>
         updated_at row = now)"
  proof
    assume "\<not> text_not_a_string b \<and> \<not> invalid_input parse today b"
    then obtain d s where d: "body_date b = Some d"
      and p: "?R = (Inr s, createOrUpdateEntry now userId d (written_text b)
                 (truthy (body_skipped b)) (written_rating b) tbl)"
      using post_entry_valid [of b parse today now userId tbl] by blast
    obtain row where "getEntry userId d (createOrUpdateEntry now userId d (written_text b)
                 (truthy (body_skipped b)) (written_rating b) tbl) = Some row"
      and "entry_text row = written_text b" and "rating row = written_rating b"
      and "updated_at row = now"
      using getEntry_upsert
        [of userId d now "written_text b" "truthy (body_skipped b)" "written_rating b" tbl]
      by blast
    then show "\<exists>d s row. body_date b = Some d \<and>
         ?R = (Inr s, createOrUpdateEntry now userId d (written_text b)
                 (truthy (body_skipped b)) (written_rating b) tbl) \<and>
         getEntry userId d (snd ?R) = Some row \<and>
         entry_text row = written_text b \<and> rating row = written_rating b \<and>
         updated_at row = now"
      using d p by auto
  qed
  have c3: "date_missing b \<longrightarrow> ?R = (Inl (ValidationError ''Date is required''), tbl)"
    using post_entry_date_missing [of b parse today now userId tbl] by blast
  have c4: "text_not_a_string b \<and> \<not> date_missing b \<longrightarrow>
      ?R = (Inl (ServerError ''Server error''), tbl)"
    using post_entry_text_not_a_string [of b parse today now userId tbl] by blast
  show ?thesis using c1 c2 c3 c4 by blast
qed

theorem post_entry_fails_exactly_when_invalid_witness:
  "post_entry parse_utc today_utc clock 1 (dated_body ''2024-01-06'') gap_days =
     (Inl (ValidationError ''Cannot create entry for future date''), gap_days) \<and>
   post_entry parse_utc today_utc clock 1 (dated_body ''2999-01'') gap_days =
     (Inl (ValidationError ''Cannot create entry for future date''), gap_days) \<and>
   post_entry parse_utc today_utc clock 1 (dated_body []) gap_days =
     (Inl (ValidationError ''Date is required''), gap_days) \<and>
   post_entry parse_utc today_utc clock 1 padded_body gap_days =
     (Inl (ValidationError ''Entry must be at least 100 characters''), gap_days) \<and>
   post_entry parse_utc today_utc clock 1 (good_body\<lparr>body_rating := JStr ''2''\<rparr>) gap_days =
     (Inl (ValidationError ''Invalid rating value''), gap_days) \<and>
   post_entry parse_utc today_utc clock 1 number_body gap_days =
     (Inl (ServerError ''Server error''), gap_days) \<and>
   post_entry parse_utc today_utc clock 1 (good_body\<lparr>body_text := JArr []\<rparr>) gap_days =
     (Inl (ServerError ''Server error''), gap_days) \<and>
   post_entry parse_utc today_utc clock 1 (good_body\<lparr>body_text := JNum 0\<rparr>) gap_days =
     (Inl (ValidationError ''Entry text is required''), gap_days) \<and>
   post_entry parse_utc today_utc clock 1 (good_body\<lparr>body_text := JStr ''   ''\<rparr>) gap_days =
     (Inl (ValidationError ''Entry text is required''), gap_days) \<and>
   getMissedDays 19727 1 ''2024-01-01'' gap_days = [''2024-01-02'', ''2024-01-04''] \<and>
   snd (post_entry parse_utc today_utc clock 1 good_body gap_days) =
     gap_days @ [\<lparr>user_id = 1, date = ''2024-01-05'', entry_text = Some smile_text,
       rating = Some 2, skipped = 0, created_at = clock, updated_at = clock\<rparr>]"
proof -
  note t = post_entry_fails_exactly_when_invalid
  have n1: "\<not> text_not_a_string (dated_body ''2024-01-06'')" by code_simp
  have i1: "invalid_input parse_utc today_utc (dated_body ''2024-01-06'')" by code_simp
  obtain msg1 where f1: "post_entry parse_utc today_utc clock 1 (dated_body ''2024-01-06'')
      gap_days = (Inl (ValidationError msg1), gap_days)"
    using t [of "dated_body ''2024-01-06''" parse_utc today_utc clock 1 gap_days] n1 i1
    by blast
  have e1: "fst (post_entry parse_utc today_utc clock 1 (dated_body ''2024-01-06'') gap_days) =
      Inl (ValidationError ''Cannot create entry for future date'')" by code_simp
  have w1: "post_entry parse_utc today_utc clock 1 (dated_body ''2024-01-06'') gap_days =
     (Inl (ValidationError ''Cannot create entry for future date''), gap_days)"
    using f1 e1 by simp
  have n2: "\<not> text_not_a_string (dated_body ''2999-01'')" by code_simp
  have i2: "invalid_input parse_utc today_utc (dated_body ''2999-01'')" by code_simp
  obtain msg2 where f2: "post_entry parse_utc today_utc clock 1 (dated_body ''2999-01'')
      gap_days = (Inl (ValidationError msg2), gap_days)"
    using t [of "dated_body ''2999-01''" parse_utc today_utc clock 1 gap_days] n2 i2
    by blast
  have e2: "fst (post_entry parse_utc today_utc clock 1 (dated_body ''2999-01'') gap_days) =
      Inl (ValidationError ''Cannot create entry for future date'')" by code_simp
  have w2: "post_entry parse_utc today_utc clock 1 (dated_body ''2999-01'') gap_days =
     (Inl (ValidationError ''Cannot create entry for future date''), gap_days)"
    using f2 e2 by simp
  have n3: "\<not> text_not_a_string (dated_body [])" by code_simp
  have i3: "invalid_input parse_utc today_utc (dated_body [])" by code_simp
  obtain msg3 where f3: "post_entry parse_utc today_utc clock 1 (dated_body [])
      gap_days = (Inl (ValidationError msg3), gap_days)"
    using t [of "dated_body []" parse_utc today_utc clock 1 gap_days] n3 i3 by blast
  have e3: "fst (post_entry parse_utc today_utc clock 1 (dated_body []) gap_days) =
      Inl (ValidationError ''Date is required'')" by code_simp
  have w3: "post_entry parse_utc today_utc clock 1 (dated_body []) gap_days =
     (Inl (ValidationError ''Date is required''), gap_days)"
    using f3 e3 by simp
  have n4: "\<not> text_not_a_string padded_body" by code_simp
  have i4: "invalid_input parse_utc today_utc padded_body" by code_simp
  obtain msg4 where f4: "post_entry parse_utc today_utc clock 1 padded_body
      gap_days = (Inl (ValidationError msg4), gap_days)"
    using t [of padded_body parse_utc today_utc clock 1 gap_days] n4 i4 by blast
  have e4: "fst (post_entry parse_utc today_utc clock 1 padded_body gap_days) =
      Inl (ValidationError ''Entry must be at least 100 characters'')" by code_simp
  have w4: "post_entry parse_utc today_utc clock 1 padded_body gap_days =
     (Inl (ValidationError ''Entry must be at least 100 characters''), gap_days)"
    using f4 e4 by simp
  let ?b5 = "good_body\<lparr>body_rating := JStr ''2''\<rparr>"
  have n5: "\<not> text_not_a_string ?b5" by code_simp
  have i5: "invalid_input parse_utc today_utc ?b5" by code_simp
  obtain msg5 where f5: "post_entry parse_utc today_utc clock 1 ?b5
      gap_days = (Inl (ValidationError msg5), gap_days)"
    using t [of ?b5 parse_utc today_utc clock 1 gap_days] n5 i5 by blast
  have e5: "fst (post_entry parse_utc today_utc clock 1 ?b5 gap_days) =
      Inl (ValidationError ''Invalid rating value'')" by code_simp
  have w5: "post_entry parse_utc today_utc clock 1 ?b5 gap_days =
     (Inl (ValidationError ''Invalid rating value''), gap_days)"
    using f5 e5 by simp
  have n6: "text_not_a_string number_body" by code_simp
  have d6: "\<not> date_missing number_body" by code_simp
  have w6: "post_entry parse_utc today_utc clock 1 number_body gap_days =
     (Inl (ServerError ''Server error''), gap_days)"
    using t [of number_body parse_utc today_utc clock 1 gap_days] n6 d6 by blast
  let ?b8 = "good_body\<lparr>body_text := JArr []\<rparr>"
  have n8: "text_not_a_string ?b8" by code_simp
  have d8: "\<not> date_missing ?b8" by code_simp
  have w8: "post_entry parse_utc today_utc clock 1 ?b8 gap_days =
     (Inl (ServerError ''Server error''), gap_days)"
    using t [of ?b8 parse_utc today_utc clock 1 gap_days] n8 d8 by blast
  let ?b9 = "good_body\<lparr>body_text := JNum 0\<rparr>"
  have n9: "\<not> text_not_a_string ?b9" by code_simp
  have i9: "invalid_input parse_utc today_utc ?b9" by code_simp
  obtain msg9 where f9: "post_entry parse_utc today_utc clock 1 ?b9
      gap_days = (Inl (ValidationError msg9), gap_days)"
    using t [of ?b9 parse_utc today_utc clock 1 gap_days] n9 i9 by blast
  have e9: "fst (post_entry parse_utc today_utc clock 1 ?b9 gap_days) =
      Inl (ValidationError ''Entry text is required'')" by code_simp
  have w9: "post_entry parse_utc today_utc clock 1 ?b9 gap_days =
     (Inl (ValidationError ''Entry text is required''), gap_days)"
    using f9 e9 by simp
  let ?b10 = "good_body\<lparr>body_text := JStr ''   ''\<rparr>"
  have n10: "\<not> text_not_a_string ?b10" by code_simp
  have i10: "invalid_input parse_utc today_utc ?b10" by code_simp
  obtain msg10 where f10: "post_entry parse_utc today_utc clock 1 ?b10
      gap_days = (Inl (ValidationError msg10), gap_days)"
    using t [of ?b10 parse_utc today_utc clock 1 gap_days] n10 i10 by blast
  have e10: "fst (post_entry parse_utc today_utc clock 1 ?b10 gap_days) =
      Inl (ValidationError ''Entry text is required'')" by code_simp
  have w10: "post_entry parse_utc today_utc clock 1 ?b10 gap_days =
     (Inl (ValidationError ''Entry text is required''), gap_days)"
    using f10 e10 by simp
  have m: "getMissedDays 19727 1 ''2024-01-01'' gap_days = [''2024-01-02'', ''2024-01-04'']"
    by code_simp
  have n7: "\<not> text_not_a_string good_body" by code_simp
  have v7: "\<not> invalid_input parse_utc today_utc good_body" by code_simp
  obtain d s where "body_date good_body = Some d"
    and p: "post_entry parse_utc today_utc clock 1 good_body gap_days =
      (Inr s, createOrUpdateEntry clock 1 d (written_text good_body)
         (truthy (body_skipped good_body)) (written_rating good_body) gap_days)"
    using t [of good_body parse_utc today_utc clock 1 gap_days] n7 v7 by blast
  have w7: "snd (post_entry parse_utc today_utc clock 1 good_body gap_days) =
     gap_days @ [\<lparr>user_id = 1, date = ''2024-01-05'', entry_text = Some smile_text,
       rating = Some 2, skipped = 0, created_at = clock, updated_at = clock\<rparr>]"
    by code_simp
  show ?thesis using w1 w2 w3 w4 w5 w6 w8 w9 w10 m w7 by blast
qed

text \<open>
  C5 as the specification words it: for a date not after today, an upsert with
  the skip flag and no text succeeds whatever rating comes with it. It fails on
  the rating 5: the rating is checked whether or not the skip flag is set, and
  the upsert is refused.
\<close>

theorem skip_with_rating_5_counterexample:
  "parse_utc ''2024-01-04'' = Some (midnight 19726) \<and>
   \<not> date_in_future parse_utc today_utc (skip_body JNull (JNum 5)) \<and>
   truthy (body_skipped (skip_body JNull (JNum 5))) \<and>
   body_text (skip_body JNull (JNum 5)) = JNull \<and>
   post_entry parse_utc today_utc clock 1 (skip_body JNull (JNum 5)) [] =
     (Inl (ValidationError ''Invalid rating value''), [])"
  by code_simp

text \<open>
  C5, amended: for every date not after today, an upsert with the skip flag
  succeeds and leaves an entry with text absent and rating absent, whatever text
  comes with it and whatever rating among absent, \<^verbatim>\<open>null\<close>, 1, 2 and 3 comes with
  it; with any other rating it fails with the validation error for the rating,
  and writes nothing. (A date after today fails with a validation error too.)
\<close>

theorem skip_stores_no_text_no_rating:
  "truthy (body_skipped b) \<Longrightarrow> body_date b = Some d \<Longrightarrow> d \<noteq> [] \<Longrightarrow>
   (\<not> date_in_future parse today b \<and> \<not> rating_invalid b \<longrightarrow>
      (\<exists>s row. post_entry parse today now userId b tbl =
          (Inr s, createOrUpdateEntry now userId d None True None tbl) \<and>
        saved_rating s = None \<and> saved_skipped s \<and>
        getEntry userId d (createOrUpdateEntry now userId d None True None tbl) = Some row \<and>
        entry_text row = None \<and> rating row = None \<and> skipped row = 1)) \<and>
   (rating_invalid b \<longrightarrow>
      post_entry parse today now userId b tbl =
        (Inl (ValidationError ''Invalid rating value''), tbl)) \<and>
   (date_in_future parse today b \<and> \<not> rating_invalid b \<longrightarrow>
      post_entry parse today now userId b tbl =
        (Inl (ValidationError ''Cannot create entry for future date''), tbl))"
proof -
  assume sk: "truthy (body_skipped b)" and d: "body_date b = Some d" and ne: "d \<noteq> []"
  let ?R = "post_entry parse today now userId b tbl"
  have ns: "\<not> text_not_a_string b" using sk by (simp add: text_not_a_string_def)
  have c1: "\<not> date_in_future parse today b \<and> \<not> rating_invalid b \<longrightarrow>
      (\<exists>s row. ?R = (Inr s, createOrUpdateEntry now userId d None True None tbl) \<and>
        saved_rating s = None \<and> saved_skipped s \<and>
        getEntry userId d (createOrUpdateEntry now userId d None True None tbl) = Some row \<and>
        entry_text row = None \<and> rating row = None \<and> skipped row = 1)"
  proof
    assume h: "\<not> date_in_future parse today b \<and> \<not> rating_invalid b"
    have "\<not> invalid_input parse today b"
      using sk d ne h
      by (simp add: invalid_input_def date_missing_def trimmed_text_too_short_def)
    then obtain s where p: "?R = (Inr s, createOrUpdateEntry now userId d (written_text b)
          (truthy (body_skipped b)) (written_rating b) tbl)"
      and r: "saved_rating s = written_rating b" and f: "saved_skipped s = truthy (body_skipped b)"
      using post_entry_valid [OF ns, of parse today now userId tbl] d by auto
    have wt: "written_text b = None" and wr: "written_rating b = None"
      using sk by (simp_all add: written_text_def written_rating_def)
    obtain row where "getEntry userId d (createOrUpdateEntry now userId d None True None tbl) =
        Some row" and "entry_text row = None" and "rating row = None" and "skipped row = 1"
      using getEntry_upsert [of userId d now None True None tbl] by auto
    then show "\<exists>s row. ?R = (Inr s, createOrUpdateEntry now userId d None True None tbl) \<and>
        saved_rating s = None \<and> saved_skipped s \<and>
        getEntry userId d (createOrUpdateEntry now userId d None True None tbl) = Some row \<and>
        entry_text row = None \<and> rating row = None \<and> skipped row = 1"
      using p r f wt wr sk by auto
  qed
  have c2: "rating_invalid b \<longrightarrow> ?R = (Inl (ValidationError ''Invalid rating value''), tbl)"
    using sk d ne by (auto simp add: post_entry_def rating_invalid_def)
  have c3: "date_in_future parse today b \<and> \<not> rating_invalid b \<longrightarrow>
      ?R = (Inl (ValidationError ''Cannot create entry for future date''), tbl)"
    using sk d ne
    by (auto simp add: post_entry_def rating_invalid_def date_in_future_def split: option.splits)
  show ?thesis using c1 c2 c3 by blast
qed

theorem skip_stores_no_text_no_rating_witness:
  "(\<exists>s. post_entry parse_utc today_utc clock 1 (skip_body JNull (JNum 2)) gap_days =
      (Inr s, createOrUpdateEntry clock 1 ''2024-01-04'' None True None gap_days)) \<and>
   (\<exists>s. post_entry parse_utc today_utc clock 1 (skip_body (JStr ''a bad day'') JNull) gap_days =
      (Inr s, createOrUpdateEntry clock 1 ''2024-01-04'' None True None gap_days)) \<and>
   getEntry 1 ''2024-01-04'' (createOrUpdateEntry clock 1 ''2024-01-04'' None True None gap_days) =
     Some \<lparr>user_id = 1, date = ''2024-01-04'', entry_text = None, rating = None,
       skipped = 1, created_at = clock, updated_at = clock\<rparr> \<and>
   post_entry parse_utc today_utc clock 1 (skip_body JNull (JNum 0)) gap_days =
     (Inl (ValidationError ''Invalid rating value''), gap_days) \<and>
   post_entry parse_utc today_utc clock 1 (skip_body JNull (JStr ''2'')) gap_days =
     (Inl (ValidationError ''Invalid rating value''), gap_days) \<and>
   post_entry parse_utc today_utc clock 1
       ((skip_body JNull JNull)\<lparr>body_date := Some ''2024-01-06''\<rparr>) gap_days =
     (Inl (ValidationError ''Cannot create entry for future date''), gap_days) \<and>
   post_entry parse_utc today_utc clock 1
       ((skip_body JNull JNull)\<lparr>body_date := Some ''2999-01''\<rparr>) gap_days =
     (Inl (ValidationError ''Cannot create entry for future date''), gap_days) \<and>
   (\<exists>s. post_entry parse_utc today_utc clock 1
       ((skip_body JNull JNull)\<lparr>body_skipped := JStr ''yes''\<rparr>) gap_days =
      (Inr s, createOrUpdateEntry clock 1 ''2024-01-04'' None True None gap_days))"
proof -
  note t = skip_stores_no_text_no_rating
  have c: "''2024-01-04'' \<noteq> []" by simp
  have a1: "truthy (body_skipped (skip_body JNull (JNum 2)))" by code_simp
  have b1: "body_date (skip_body JNull (JNum 2)) = Some ''2024-01-04''" by code_simp
  have d1: "\<not> date_in_future parse_utc today_utc (skip_body JNull (JNum 2))" by code_simp
  have e1: "\<not> rating_invalid (skip_body JNull (JNum 2))" by code_simp
  have w1: "\<exists>s. post_entry parse_utc today_utc clock 1 (skip_body JNull (JNum 2)) gap_days =
      (Inr s, createOrUpdateEntry clock 1 ''2024-01-04'' None True None gap_days)"
    using t [OF a1 b1 c, of parse_utc today_utc clock 1 gap_days] d1 e1 by blast
  have a2: "truthy (body_skipped (skip_body (JStr ''a bad day'') JNull))" by code_simp
  have b2: "body_date (skip_body (JStr ''a bad day'') JNull) = Some ''2024-01-04''" by code_simp
  have d2: "\<not> date_in_future parse_utc today_utc (skip_body (JStr ''a bad day'') JNull)"
    by code_simp
  have e2: "\<not> rating_invalid (skip_body (JStr ''a bad day'') JNull)" by code_simp
  have w2: "\<exists>s. post_entry parse_utc today_utc clock 1 (skip_body (JStr ''a bad day'') JNull)
      gap_days = (Inr s, createOrUpdateEntry clock 1 ''2024-01-04'' None True None gap_days)"
    using t [OF a2 b2 c, of parse_utc today_utc clock 1 gap_days] d2 e2 by blast
  have g: "getEntry 1 ''2024-01-04''
      (createOrUpdateEntry clock 1 ''2024-01-04'' None True None gap_days) =
     Some \<lparr>user_id = 1, date = ''2024-01-04'', entry_text = None, rating = None,
       skipped = 1, created_at = clock, updated_at = clock\<rparr>" by code_simp
  have a3: "truthy (body_skipped (skip_body JNull (JNum 0)))" by code_simp
  have b3: "body_date (skip_body JNull (JNum 0)) = Some ''2024-01-04''" by code_simp
  have e3: "rating_invalid (skip_body JNull (JNum 0))" by code_simp
  have w3: "post_entry parse_utc today_utc clock 1 (skip_body JNull (JNum 0)) gap_days =
     (Inl (ValidationError ''Invalid rating value''), gap_days)"
    using t [OF a3 b3 c, of parse_utc today_utc clock 1 gap_days] e3 by blast
  have a4: "truthy (body_skipped (skip_body JNull (JStr ''2'')))" by code_simp
  have b4: "body_date (skip_body JNull (JStr ''2'')) = Some ''2024-01-04''" by code_simp
  have e4: "rating_invalid (skip_body JNull (JStr ''2''))" by code_simp
  have w4: "post_entry parse_utc today_utc clock 1 (skip_body JNull (JStr ''2'')) gap_days =
     (Inl (ValidationError ''Invalid rating value''), gap_days)"
    using t [OF a4 b4 c, of parse_utc today_utc clock 1 gap_days] e4 by blast
  let ?b5 = "(skip_body JNull JNull)\<lparr>body_date := Some ''2024-01-06''\<rparr>"
  have c5: "''2024-01-06'' \<noteq> []" by simp
  have a5: "truthy (body_skipped ?b5)" by code_simp
  have b5: "body_date ?b5 = Some ''2024-01-06''" by code_simp
  have d5: "date_in_future parse_utc today_utc ?b5" by code_simp
  have e5: "\<not> rating_invalid ?b5" by code_simp
  have w5: "post_entry parse_utc today_utc clock 1 ?b5 gap_days =
     (Inl (ValidationError ''Cannot create entry for future date''), gap_days)"
    using t [OF a5 b5 c5, of parse_utc today_utc clock 1 gap_days] d5 e5 by blast
  let ?b6 = "(skip_body JNull JNull)\<lparr>body_date := Some ''2999-01''\<rparr>"
  have c6: "''2999-01'' \<noteq> []" by simp
  have a6: "truthy (body_skipped ?b6)" by code_simp
  have b6: "body_date ?b6 = Some ''2999-01''" by code_simp
  have d6: "date_in_future parse_utc today_utc ?b6" by code_simp
  have e6: "\<not> rating_invalid ?b6" by code_simp
  have w6: "post_entry parse_utc today_utc clock 1 ?b6 gap_days =
     (Inl (ValidationError ''Cannot create entry for future date''), gap_days)"
    using t [OF a6 b6 c6, of parse_utc today_utc clock 1 gap_days] d6 e6 by blast
  let ?b7 = "(skip_body JNull JNull)\<lparr>body_skipped := JStr ''yes''\<rparr>"
  have a7: "truthy (body_skipped ?b7)" by code_simp
  have b7: "body_date ?b7 = Some ''2024-01-04''" by code_simp
  have d7: "\<not> date_in_future parse_utc today_utc ?b7" by code_simp
  have e7: "\<not> rating_invalid ?b7" by code_simp
  have w7: "\<exists>s. post_entry parse_utc today_utc clock 1 ?b7 gap_days =
      (Inr s, createOrUpdateEntry clock 1 ''2024-01-04'' None True None gap_days)"
    using t [OF a7 b7 c, of parse_utc today_utc clock 1 gap_days] d7 e7 by blast
  show ?thesis using w1 w2 g w3 w4 w5 w6 w7 by blast
qed

text \<open>
  C9: every row an accepted upsert writes satisfies the entry invariant. With the
  skip flag the row has no text and no rating, whatever text or rating came with
  the flag; without it the row's text is not empty and has at least the minimum
  length. The rows for the entry's user and date all satisfy it afterwards, there
  is such a row, and a table whose rows all satisfied it still does.
\<close>

theorem post_entry_keeps_entry_invariant:
  "post_entry parse today now userId b tbl = (Inr s, tbl') \<Longrightarrow>
   (\<exists>row. getEntry userId (saved_date s) tbl' = Some row \<and> entry_invariant row) \<and>
   (\<forall>row \<in> set tbl'. user_id row = userId \<and> date row = saved_date s \<longrightarrow>
      entry_invariant row) \<and>
   (list_all entry_invariant tbl \<longrightarrow> list_all entry_invariant tbl')"
proof -
  assume ok: "post_entry parse today now userId b tbl = (Inr s, tbl')"
  let ?t = "written_text b"
  let ?r = "written_rating b"
  let ?k = "truthy (body_skipped b)"
  have ns: "\<not> text_not_a_string b" and v: "\<not> invalid_input parse today b"
    using post_entry_success [OF ok] by simp_all
  obtain d where d: "saved_date s = d"
    and t: "tbl' = createOrUpdateEntry now userId d ?t ?k ?r tbl"
    using ok post_entry_valid [OF ns v, of now userId tbl] by auto
  have new: "\<And>e. entry_text e = ?t \<Longrightarrow> rating e = ?r \<Longrightarrow>
      skipped e = (if ?k then 1 else 0) \<Longrightarrow> entry_invariant e"
    using ns v by (rule new_row_invariant)
  obtain row0 where g: "getEntry userId d tbl' = Some row0"
    and f: "entry_text row0 = ?t" "rating row0 = ?r" "skipped row0 = (if ?k then 1 else 0)"
    using getEntry_upsert [of userId d now ?t ?k ?r tbl] unfolding t by blast
  have "entry_invariant row0" using f by (rule new)
  then have c1: "\<exists>row. getEntry userId (saved_date s) tbl' = Some row \<and> entry_invariant row"
    using g d by blast
  have c2: "\<forall>row \<in> set tbl'. user_id row = userId \<and> date row = saved_date s \<longrightarrow>
      entry_invariant row"
  proof (intro ballI impI)
    fix row assume m: "row \<in> set tbl'" and k: "user_id row = userId \<and> date row = saved_date s"
    have "row \<in> set (createOrUpdateEntry now userId d ?t ?k ?r tbl)"
      using m t by simp
    then have "entry_text row = ?t \<and> rating row = ?r \<and> skipped row = (if ?k then 1 else 0)"
      using upsert_rows_inv [of row now userId d ?t ?k ?r tbl] k d by blast
    then show "entry_invariant row" using new by blast
  qed
  have c3: "list_all entry_invariant tbl \<longrightarrow> list_all entry_invariant tbl'"
  proof
    assume a: "list_all entry_invariant tbl"
    show "list_all entry_invariant tbl'"
      unfolding list_all_iff
    proof
      fix row assume m: "row \<in> set tbl'"
      have "row \<in> set (createOrUpdateEntry now userId d ?t ?k ?r tbl)"
        using m t by simp
      then have "(entry_text row = ?t \<and> rating row = ?r \<and>
          skipped row = (if ?k then 1 else 0)) \<or> row \<in> set tbl"
        using upsert_rows_inv [of row now userId d ?t ?k ?r tbl] by blast
      then show "entry_invariant row"
      proof
        assume "entry_text row = ?t \<and> rating row = ?r \<and> skipped row = (if ?k then 1 else 0)"
        then show ?thesis using new by blast
      next
        assume "row \<in> set tbl"
        then show ?thesis using a unfolding list_all_iff by blast
      qed
    qed
  qed
  show ?thesis using c1 c2 c3 by blast
qed

theorem post_entry_keeps_entry_invariant_witness:
  "(\<exists>s. post_entry parse_utc today_utc clock 1 (skip_body (JStr ''a bad day'') (JNum 3)) gap_days =
      (Inr s, gap_days @ [\<lparr>user_id = 1, date = ''2024-01-04'', entry_text = None,
         rating = None, skipped = 1, created_at = clock, updated_at = clock\<rparr>]) \<and>
      saved_date s = ''2024-01-04'') \<and>
   list_all entry_invariant gap_days \<and>
   list_all entry_invariant
     (gap_days @ [\<lparr>user_id = 1, date = ''2024-01-04'', entry_text = None,
        rating = None, skipped = 1, created_at = clock, updated_at = clock\<rparr>]) \<and>
   list_all entry_invariant (snd (post_entry parse_utc today_utc clock 1 good_body gap_days))"
proof -
  let ?tbl = "gap_days @ [\<lparr>user_id = 1, date = ''2024-01-04'', entry_text = None,
      rating = None, skipped = 1, created_at = clock, updated_at = clock\<rparr>]"
  let ?s = "\<lparr>message = ''Day skipped'', saved_date = ''2024-01-04'', saved_rating = None,
      saved_skipped = True\<rparr>"
  have p: "post_entry parse_utc today_utc clock 1 (skip_body (JStr ''a bad day'') (JNum 3))
      gap_days = (Inr ?s, ?tbl)"
    by code_simp
  have g: "list_all entry_invariant gap_days" by code_simp
  have a: "list_all entry_invariant ?tbl"
    using post_entry_keeps_entry_invariant [OF p] g by blast
  have e: "\<exists>s. post_entry parse_utc today_utc clock 1 (skip_body (JStr ''a bad day'') (JNum 3))
      gap_days = (Inr s, ?tbl) \<and> saved_date s = ''2024-01-04''"
    using p by simp
  let ?s2 = "\<lparr>message = ''Entry saved'', saved_date = ''2024-01-05'', saved_rating = Some 2,
      saved_skipped = False\<rparr>"
  have p2: "post_entry parse_utc today_utc clock 1 good_body gap_days =
      (Inr ?s2, snd (post_entry parse_utc today_utc clock 1 good_body gap_days))"
    by code_simp
  have b: "list_all entry_invariant (snd (post_entry parse_utc today_utc clock 1 good_body gap_days))"
    using post_entry_keeps_entry_invariant [OF p2] g by blast
  show ?thesis using e g a b by blast
qed

text \<open>
  C10: when the upsert fails with a validation error, nothing is written: the
  table is as it was before the call. Every check of the handler returns before
  the insert-or-replace is reached.
\<close>

theorem post_entry_failure_writes_nothing:
  "post_entry parse today now userId b tbl = (Inl (ValidationError msg), tbl') \<Longrightarrow> tbl' = tbl"
proof -
  assume f: "post_entry parse today now userId b tbl = (Inl (ValidationError msg), tbl')"
  show "tbl' = tbl"
  proof (cases "date_missing b")
    case True
    then show ?thesis using f post_entry_date_missing [of b parse today now userId tbl] by simp
  next
    case dm: False
    show ?thesis
    proof (cases "text_not_a_string b")
      case True
      then show ?thesis
        using f dm post_entry_text_not_a_string [of b parse today now userId tbl] by simp
    next
      case ns: False
      show ?thesis
      proof (cases "invalid_input parse today b")
        case True
        then show ?thesis
          using f ns post_entry_invalid [of b parse today now userId tbl] by auto
      next
        case False
        then show ?thesis
          using f ns post_entry_valid [of b parse today now userId tbl] by auto
      qed
    qed
  qed
qed

theorem post_entry_failure_writes_nothing_witness:
  "post_entry parse_utc today_utc clock 1 padded_body gap_days =
     (Inl (ValidationError ''Entry must be at least 100 characters''), gap_days) \<and>
   post_entry parse_utc today_utc clock 1 (skip_body JNull (JNum 0)) gap_days =
     (Inl (ValidationError ''Invalid rating value''), gap_days)"
proof -
  have a: "fst (post_entry parse_utc today_utc clock 1 padded_body gap_days) =
      Inl (ValidationError ''Entry must be at least 100 characters'')" by code_simp
  have b: "fst (post_entry parse_utc today_utc clock 1 (skip_body JNull (JNum 0)) gap_days) =
      Inl (ValidationError ''Invalid rating value'')" by code_simp
  have "snd (post_entry parse_utc today_utc clock 1 padded_body gap_days) = gap_days"
    using a post_entry_failure_writes_nothing
      [of parse_utc today_utc clock 1 padded_body gap_days
         "''Entry must be at least 100 characters''"
         "snd (post_entry parse_utc today_utc clock 1 padded_body gap_days)"]
    by (simp add: prod_eq_iff)
  moreover have "snd (post_entry parse_utc today_utc clock 1 (skip_body JNull (JNum 0)) gap_days) =
      gap_days"
    using b post_entry_failure_writes_nothing
      [of parse_utc today_utc clock 1 "skip_body JNull (JNum 0)" gap_days
         "''Invalid rating value''"
         "snd (post_entry parse_utc today_utc clock 1 (skip_body JNull (JNum 0)) gap_days)"]
    by (simp add: prod_eq_iff)
  ultimately show ?thesis using a b by (simp add: prod_eq_iff)
qed

text \<open>
  C6: on a table that meets its uniqueness constraint, upserting the same user
  and date twice, with whatever text, rating and skip flag each time, leaves
  exactly one row for that user and date, and the row carries the text, rating,
  skip flag and update time of the second write. No sequence of upserts leaves
  two rows for one user and date.
\<close>

theorem upsert_twice_leaves_one_row:
  "unique_key tbl \<Longrightarrow>
   (\<exists>row. rows_for userId d
        (createOrUpdateEntry now2 userId d t2 s2 r2
           (createOrUpdateEntry now1 userId d t1 s1 r1 tbl)) = [row] \<and>
      entry_text row = t2 \<and> rating row = r2 \<and> skipped row = (if s2 then 1 else 0) \<and>
      updated_at row = now2) \<and>
   (\<forall>ops. unique_key (upserts ops tbl)) \<and>
   (\<forall>ops u k. length (rows_for u k (upserts ops tbl)) \<le> 1)"
proof -
  assume u: "unique_key tbl"
  let ?tbl1 = "createOrUpdateEntry now1 userId d t1 s1 r1 tbl"
  let ?tbl2 = "createOrUpdateEntry now2 userId d t2 s2 r2 ?tbl1"
  have u2: "unique_key ?tbl2" using u by (intro upsert_unique)
  obtain row where g: "getEntry userId d ?tbl2 = Some row"
    and f: "entry_text row = t2 \<and> rating row = r2 \<and> skipped row = (if s2 then 1 else 0) \<and>
      updated_at row = now2"
    using getEntry_upsert [of userId d now2 t2 s2 r2 ?tbl1] by blast
  have "rows_for userId d ?tbl2 = [row]" using g u2 by (rule getEntry_rows_for)
  then have c1: "\<exists>row. rows_for userId d ?tbl2 = [row] \<and>
      entry_text row = t2 \<and> rating row = r2 \<and> skipped row = (if s2 then 1 else 0) \<and>
      updated_at row = now2"
    using f by blast
  have c2: "\<forall>ops. unique_key (upserts ops tbl)"
    using u by (simp add: upserts_unique)
  have c3: "\<forall>ops u k. length (rows_for u k (upserts ops tbl)) \<le> 1"
  proof (intro allI)
    fix ops u k
    have "unique_key (upserts ops tbl)" using c2 by blast
    then show "length (rows_for u k (upserts ops tbl)) \<le> 1" by (rule unique_rows_for)
  qed
  show ?thesis using c1 c2 c3 by blast
qed

theorem upsert_twice_leaves_one_row_witness:
  "unique_key [] \<and>
   rows_for 1 ''2024-01-05''
     (createOrUpdateEntry ''2024-01-05T21:00:00.000Z'' 1 ''2024-01-05'' None True None
        (createOrUpdateEntry clock 1 ''2024-01-05'' (Some smile_text) False (Some 3) [])) =
     [\<lparr>user_id = 1, date = ''2024-01-05'', entry_text = None, rating = None, skipped = 1,
       created_at = clock, updated_at = ''2024-01-05T21:00:00.000Z''\<rparr>] \<and>
   length (rows_for 1 ''2024-01-05''
     (upserts [(clock, 1, ''2024-01-05'', Some smile_text, False, Some 3),
               (clock, 1, ''2024-01-04'', None, True, None),
               (''2024-01-05T21:00:00.000Z'', 1, ''2024-01-05'', None, True, None)] [])) = 1"
proof -
  have u: "unique_key []" by (simp add: unique_key_def)
  note t = upsert_twice_leaves_one_row [OF u]
  have a: "rows_for 1 ''2024-01-05''
     (createOrUpdateEntry ''2024-01-05T21:00:00.000Z'' 1 ''2024-01-05'' None True None
        (createOrUpdateEntry clock 1 ''2024-01-05'' (Some smile_text) False (Some 3) [])) =
     [\<lparr>user_id = 1, date = ''2024-01-05'', entry_text = None, rating = None, skipped = 1,
       created_at = clock, updated_at = ''2024-01-05T21:00:00.000Z''\<rparr>]"
    by code_simp
  let ?ops = "[(clock, 1, ''2024-01-05'', Some smile_text, False, Some 3),
               (clock, 1, ''2024-01-04'', None, True, None),
               (''2024-01-05T21:00:00.000Z'', 1, ''2024-01-05'', None, True, None)]"
  have le: "length (rows_for 1 ''2024-01-05'' (upserts ?ops [])) \<le> 1"
    using t [of 1 "''2024-01-05''" clock None True None clock None True None] by blast
  have ne: "rows_for 1 ''2024-01-05'' (upserts ?ops []) \<noteq> []" by code_simp
  have "length (rows_for 1 ''2024-01-05'' (upserts ?ops [])) = 1"
    using le ne by (cases "rows_for 1 ''2024-01-05'' (upserts ?ops [])") simp_all
  then show ?thesis using u a by blast
qed

section \<open>Random entry\<close>



end
